theory Spec2Isabelle
  imports Complex_Main "HOL-Library.Word"
begin

unbundle bit_operations_syntax

section \<open>Numbers and readings\<close>

text \<open>
  A JavaScript \<^verbatim>\<open>number\<close> is modelled as an exact real or the value \<^verbatim>\<open>NaN\<close>; the
  quotients the decoder forms (\<^verbatim>\<open>b / 100\<close>, \<^verbatim>\<open>b / 10\<close> for an integer \<open>b\<close>) are kept exact,
  the double the program holds being the rounding of that quotient. Reading an
  array past its end gives \<^verbatim>\<open>undefined\<close>, and \<^verbatim>\<open>undefined / 10\<close> is \<^verbatim>\<open>NaN\<close>.
  A \<^verbatim>\<open>Date\<close> is its \<^verbatim>\<open>getTime()\<close> value, integer milliseconds.
\<close>

datatype number = Num real | NaN

record SensorReading =
  voltage :: number
  current :: number
  temperature :: number
  ph :: number
  timestamp :: int

text \<open>The point's \<open>timestamp\<close> field is \<open>point_timestamp\<close> here, apart from the reading's.\<close>

record ChartDataPoint =
  point_timestamp :: int
  "value" :: number

datatype ConnectionMode = ModeSimulated | ModeReal

record SensorState =
  isConnected :: bool
  currentReading :: "SensorReading option"
  voltageHistory :: "ChartDataPoint list"
  currentHistory :: "ChartDataPoint list"
  isSimulating :: bool
  connectionMode :: ConnectionMode
  connectedDeviceName :: "string option"

section \<open>The sensor-data hook (useSensorData.ts)\<close>

definition MAX_HISTORY_POINTS :: nat where
  "MAX_HISTORY_POINTS = 60"

text \<open>\<^verbatim>\<open>xs.slice(-n)\<close> for \<open>n > 0\<close>: the start index is \<open>max (length xs - n) 0\<close>.\<close>

definition slice_last :: "nat \<Rightarrow> 'a list \<Rightarrow> 'a list" where
  "slice_last n xs = drop (length xs - n) xs"

definition initialState :: SensorState where
  "initialState = \<lparr> isConnected = False, currentReading = None, voltageHistory = [],
     currentHistory = [], isSimulating = False, connectionMode = ModeSimulated,
     connectedDeviceName = None \<rparr>"

text \<open>
  The hook owns the React state and \<^verbatim>\<open>intervalRef\<close>. \<open>intervalRef\<close> tells whether the ref
  holds a handle, \<open>intervalLive\<close> whether an interval is scheduled (a handle that was
  passed to \<^verbatim>\<open>clearInterval\<close> stays in the ref until it is set to null).
\<close>

record Hook =
  state :: SensorState
  intervalRef :: bool
  intervalLive :: bool

definition initialHook :: Hook where
  "initialHook = \<lparr> state = initialState, intervalRef = False, intervalLive = False \<rparr>"

text \<open>The effect on \<^verbatim>\<open>[state.isSimulating]\<close>: its cleanup and its body.\<close>

definition effectCleanup :: "Hook \<Rightarrow> Hook" where
  "effectCleanup h = (if intervalRef h then h\<lparr>intervalLive := False\<rparr> else h)"

definition effectBody :: "Hook \<Rightarrow> Hook" where
  "effectBody h =
     (if isSimulating (state h) then h\<lparr>intervalRef := True, intervalLive := True\<rparr>
      else if intervalRef h then h\<lparr>intervalLive := False, intervalRef := False\<rparr>
      else h)"

text \<open>
  \<^verbatim>\<open>setState(updater)\<close> followed by the commit: when \<^verbatim>\<open>isSimulating\<close> changed, the cleanup
  the previous run returned (it returned one only when it was simulating) and the body run.
\<close>

definition setState :: "(SensorState \<Rightarrow> SensorState) \<Rightarrow> Hook \<Rightarrow> Hook" where
  "setState f h =
     (let prev = state h; h' = h\<lparr>state := f prev\<rparr>
      in if isSimulating (f prev) = isSimulating prev then h'
         else effectBody (if isSimulating prev then effectCleanup h' else h'))"

definition setConnectionMode :: "ConnectionMode \<Rightarrow> Hook \<Rightarrow> Hook" where
  "setConnectionMode mode = setState (\<lambda>prev. prev\<lparr>connectionMode := mode,
     isConnected := False, isSimulating := False, connectedDeviceName := None\<rparr>)"

text \<open>\<^verbatim>\<open>deviceName || "Simulated Device"\<close>: an absent or empty name gives the default.\<close>

definition startSimulation :: "string option \<Rightarrow> Hook \<Rightarrow> Hook" where
  "startSimulation deviceName = setState (\<lambda>prev. prev\<lparr>isConnected := True,
     isSimulating := True,
     connectedDeviceName :=
       Some (case deviceName of None \<Rightarrow> ''Simulated Device''
             | Some n \<Rightarrow> if n = [] then ''Simulated Device'' else n)\<rparr>)"

definition stopSimulation :: "Hook \<Rightarrow> Hook" where
  "stopSimulation = setState (\<lambda>prev. prev\<lparr>isConnected := False,
     isSimulating := False, connectedDeviceName := None\<rparr>)"

definition connectToRealDevice :: "string \<Rightarrow> Hook \<Rightarrow> Hook" where
  "connectToRealDevice deviceName = setState (\<lambda>prev. prev\<lparr>isConnected := True,
     isSimulating := False, connectedDeviceName := Some deviceName\<rparr>)"

definition disconnectRealDevice :: "Hook \<Rightarrow> Hook" where
  "disconnectRealDevice = setState (\<lambda>prev. prev\<lparr>isConnected := False,
     connectedDeviceName := None\<rparr>)"

definition voltagePoint :: "SensorReading \<Rightarrow> ChartDataPoint" where
  "voltagePoint reading = \<lparr> point_timestamp = timestamp reading, value = voltage reading \<rparr>"

definition currentPoint :: "SensorReading \<Rightarrow> ChartDataPoint" where
  "currentPoint reading = \<lparr> point_timestamp = timestamp reading, value = current reading \<rparr>"

definition recordReading :: "SensorReading \<Rightarrow> SensorState \<Rightarrow> SensorState" where
  "recordReading reading prev =
     (let newVoltageHistory =
            slice_last MAX_HISTORY_POINTS (voltageHistory prev @ [voltagePoint reading]);
          newCurrentHistory =
            slice_last MAX_HISTORY_POINTS (currentHistory prev @ [currentPoint reading])
      in prev\<lparr>currentReading := Some reading, voltageHistory := newVoltageHistory,
              currentHistory := newCurrentHistory\<rparr>)"

definition updateRealReading :: "SensorReading \<Rightarrow> Hook \<Rightarrow> Hook" where
  "updateRealReading reading = setState (recordReading reading)"

definition toggleConnection :: "Hook \<Rightarrow> Hook" where
  "toggleConnection = setState (\<lambda>prev.
     if isConnected prev
     then prev\<lparr>isConnected := False, isSimulating := False, connectedDeviceName := None\<rparr>
     else prev\<lparr>isConnected := True,
            isSimulating := (connectionMode prev = ModeSimulated),
            connectedDeviceName :=
              (if connectionMode prev = ModeSimulated then Some ''Simulated Device'' else None)\<rparr>)"

definition clearHistory :: "Hook \<Rightarrow> Hook" where
  "clearHistory = setState (\<lambda>prev. prev\<lparr>voltageHistory := [], currentHistory := [],
     currentReading := None\<rparr>)"

text \<open>
  The interval callback, run once a second while the interval is scheduled. The reading
  \<^verbatim>\<open>generateRandomReading()\<close> draws is a parameter.
\<close>

definition simulationTick :: "SensorReading \<Rightarrow> Hook \<Rightarrow> Hook" where
  "simulationTick reading h =
     (if intervalLive h then setState (recordReading reading) h else h)"

datatype HookOp =
    SetConnectionMode ConnectionMode
  | StartSimulation "string option"
  | StopSimulation
  | ConnectToRealDevice string
  | DisconnectRealDevice
  | UpdateRealReading SensorReading
  | ToggleConnection
  | ClearHistory
  | SimulationTick SensorReading

fun applyOp :: "Hook \<Rightarrow> HookOp \<Rightarrow> Hook" where
  "applyOp h (SetConnectionMode m) = setConnectionMode m h"
| "applyOp h (StartSimulation n) = startSimulation n h"
| "applyOp h StopSimulation = stopSimulation h"
| "applyOp h (ConnectToRealDevice n) = connectToRealDevice n h"
| "applyOp h DisconnectRealDevice = disconnectRealDevice h"
| "applyOp h (UpdateRealReading r) = updateRealReading r h"
| "applyOp h ToggleConnection = toggleConnection h"
| "applyOp h ClearHistory = clearHistory h"
| "applyOp h (SimulationTick r) = simulationTick r h"

definition runOps :: "HookOp list \<Rightarrow> Hook \<Rightarrow> Hook" where
  "runOps ops h = foldl applyOp h ops"


section \<open>The payload decoder (BleServiceClass.decodeBase64)\<close>

text \<open>
  A JavaScript string is modelled as a \<open>string\<close>; \<^verbatim>\<open>base64[i]\<close> outside the string is
  \<^verbatim>\<open>undefined\<close>, here \<open>None\<close>.
\<close>

definition chars :: string where
  "chars = ''ABCDEFGHIJKLMNOPQRSTUVWXYZabcdefghijklmnopqrstuvwxyz0123456789+/''"

definition charAt :: "string \<Rightarrow> int \<Rightarrow> char option" where
  "charAt s i = (if 0 \<le> i \<and> i < int (length s) then Some (s ! nat i) else None)"

fun indexFrom :: "char \<Rightarrow> string \<Rightarrow> int \<Rightarrow> int" where
  "indexFrom c [] i = - 1"
| "indexFrom c (x # xs) i = (if x = c then i else indexFrom c xs (i + 1))"

text \<open>
  \<^verbatim>\<open>chars.indexOf(base64[i])\<close>: the position of the character in the alphabet or \<open>-1\<close>;
  \<^verbatim>\<open>undefined\<close> is searched for as the text "undefined", which the alphabet does not
  contain.
\<close>

definition indexOf :: "char option \<Rightarrow> int" where
  "indexOf c = (case c of None \<Rightarrow> - 1 | Some x \<Rightarrow> indexFrom x chars 0)"

text \<open>
  \<^verbatim>\<open>bytes[p] = v\<close> on a \<^verbatim>\<open>Uint8Array\<close>: the value is reduced modulo 256, and a write past
  the end of the array is dropped.
\<close>

definition storeByte :: "int list \<Rightarrow> nat \<Rightarrow> int \<Rightarrow> int list" where
  "storeByte bytes p v = (if p < length bytes then bytes[p := v mod 256] else bytes)"

function decodeLoop :: "string \<Rightarrow> nat \<Rightarrow> int list \<Rightarrow> nat \<Rightarrow> int list" where
  "decodeLoop base64 i bytes p =
     (if i < length base64 then
        (let encoded1 = indexOf (charAt base64 (int i));
             encoded2 = indexOf (charAt base64 (int i + 1));
             encoded3 = indexOf (charAt base64 (int i + 2));
             encoded4 = indexOf (charAt base64 (int i + 3));
             bytes1 = storeByte bytes p (push_bit 2 encoded1 OR drop_bit 4 encoded2);
             p1 = p + 1;
             third = (encoded3 \<noteq> - 1 \<and> charAt base64 (int i + 2) \<noteq> Some (CHR ''=''));
             bytes2 = (if third
                       then storeByte bytes1 p1 (push_bit 4 (encoded2 AND 15) OR drop_bit 2 encoded3)
                       else bytes1);
             p2 = (if third then p1 + 1 else p1);
             fourth = (encoded4 \<noteq> - 1 \<and> charAt base64 (int i + 3) \<noteq> Some (CHR ''=''));
             bytes3 = (if fourth
                       then storeByte bytes2 p2 (push_bit 6 (encoded3 AND 3) OR encoded4)
                       else bytes2);
             p3 = (if fourth then p2 + 1 else p2)
         in decodeLoop base64 (i + 4) bytes3 p3)
      else bytes)"
  by pat_completeness auto
termination
  by (relation "measure (\<lambda>(base64, i, bytes, p). length base64 - i)") auto

declare decodeLoop.simps [simp del]

definition fallbackBytes :: "int list" where
  "fallbackBytes = [300, 100, 370, 70]"

text \<open>
  \<^verbatim>\<open>base64.length * 0.75\<close>, less one for each of the last two characters that is \<^verbatim>\<open>=\<close>.
\<close>

definition bufferLength :: "string \<Rightarrow> rat" where
  "bufferLength base64 =
     (let len = int (length base64);
          l0 = of_int len * (3 / 4);
          l1 = (if charAt base64 (len - 1) = Some (CHR ''='') then l0 - 1 else l0)
      in if charAt base64 (len - 2) = Some (CHR ''='') then l1 - 1 else l1)"

text \<open>
  \<^verbatim>\<open>new Uint8Array(n)\<close> truncates \<open>n\<close> towards zero and throws a \<^verbatim>\<open>RangeError\<close> when the
  result is negative; the array starts filled with zeros.
\<close>

definition newUint8Array :: "rat \<Rightarrow> int list option" where
  "newUint8Array n =
     (let k = (if n < 0 then \<lceil>n\<rceil> else \<lfloor>n\<rfloor>)
      in if k < 0 then None else Some (replicate (nat k) 0))"

text \<open>The \<^verbatim>\<open>catch\<close> of \<^verbatim>\<open>decodeBase64\<close> returns the fallback bytes.\<close>

definition decodeBase64 :: "string \<Rightarrow> int list" where
  "decodeBase64 base64 =
     (case newUint8Array (bufferLength base64) of
        None \<Rightarrow> fallbackBytes
      | Some bytes \<Rightarrow> decodeLoop base64 0 bytes 0)"

text \<open>\<^verbatim>\<open>data[i]\<close> is \<^verbatim>\<open>undefined\<close> past the end, and \<^verbatim>\<open>undefined / d\<close> is \<^verbatim>\<open>NaN\<close>.\<close>

definition element :: "int list \<Rightarrow> nat \<Rightarrow> int option" where
  "element data i = (if i < length data then Some (data ! i) else None)"

definition divide_js :: "int option \<Rightarrow> real \<Rightarrow> number" where
  "divide_js x d = (case x of None \<Rightarrow> NaN | Some b \<Rightarrow> Num (of_int b / d))"

text \<open>
  The reading both acquisition paths build from the decoded bytes; \<open>now\<close> is
  \<^verbatim>\<open>new Date()\<close>.
\<close>

definition readingOfBytes :: "int \<Rightarrow> int list \<Rightarrow> SensorReading" where
  "readingOfBytes now data =
     \<lparr> voltage = divide_js (element data 0) 100,
       current = divide_js (element data 1) 100,
       temperature = divide_js (element data 2) 10,
       ph = divide_js (element data 3) 10,
       timestamp = now \<rparr>"


section \<open>The BLE service (BleServiceClass)\<close>

text \<open>\<open>dev_id\<close> and \<open>dev_name\<close> are the fields \<open>id\<close> and \<open>name\<close> of \<^verbatim>\<open>BleDevice\<close>.\<close>

record BleDevice =
  dev_id :: string
  dev_name :: string
  rssi :: int
  isConnectable :: bool

text \<open>
  What the service does to the outside, in order: the four callbacks of
  \<^verbatim>\<open>BleServiceCallbacks\<close>, the calls it makes on the BLE library and the timers, and
  \<^verbatim>\<open>console.log\<close> (its fixed first argument).
\<close>

datatype action =
    OnDeviceFound BleDevice
  | OnConnectionStateChange bool "string option"
  | OnDataReceived SensorReading
  | OnError string
  | ConsoleLog string
  | StartDeviceScan
  | StopDeviceScan
  | SetTimeout nat
  | ConnectRequest string
  | DiscoverAllServicesAndCharacteristics
  | MonitorCharacteristicForService
  | SetInterval nat
  | ClearInterval
  | CancelConnection

text \<open>
  An awaited call on the library either rejects, with the message of the error, or
  resolves. The objects of the library are modelled by the answers they give.
\<close>

datatype 'a outcome = Rejects string | Resolves 'a

record Characteristic =
  isReadable :: bool
  read :: "string option outcome"

record Service =
  characteristics :: "Characteristic list outcome"

record Peripheral =
  name :: "string option"
  discoverAllServicesAndCharacteristics :: "unit outcome"
  monitorThrows :: bool
  services :: "Service list outcome"
  cancelConnection :: "unit outcome"

text \<open>
  The fields of the class (\<open>manager\<close>, \<open>device\<close> and \<open>callbacks\<close> are null or set), and
  with them what the service has registered outside itself: \<open>nativeScan\<close>, the library
  is scanning and holds the scan listener; \<open>timeouts\<close>, the due times of the pending
  \<^verbatim>\<open>setTimeout(() => this.stopScan(), timeoutMs)\<close>; \<open>clock\<close>, the time in milliseconds;
  \<open>monitoring\<close>, the notification listener is registered; \<open>pollInterval\<close>, the polling
  interval is scheduled.
\<close>

record BleServiceClass =
  manager :: bool
  device :: "Peripheral option"
  isScanning :: bool
  callbacks :: bool
  isInitialized :: bool
  initError :: "string option"
  nativeScan :: bool
  timeouts :: "nat list"
  clock :: nat
  monitoring :: bool
  pollInterval :: bool

text \<open>\<^verbatim>\<open>this.callbacks?.on...(...)\<close>: nothing is called while no callbacks are set.\<close>

definition emit :: "BleServiceClass \<Rightarrow> action \<Rightarrow> action list" where
  "emit s a = (if callbacks s then [a] else [])"

definition stopScan :: "BleServiceClass \<Rightarrow> BleServiceClass \<times> action list" where
  "stopScan s =
     (if manager s \<and> isScanning s
      then (s\<lparr>nativeScan := False, isScanning := False\<rparr>, [StopDeviceScan])
      else (s, []))"

text \<open>
  \<^verbatim>\<open>checkPermissions()\<close> answers \<open>Ready\<close>, or \<open>Refused\<close> with the message it has passed to
  \<^verbatim>\<open>onError\<close>; the platform, the permissions and the radio state behind it are the
  environment's.
\<close>

datatype gate = Ready | Refused string

text \<open>\<open>startThrows\<close>: \<^verbatim>\<open>manager.startDeviceScan\<close> throws.\<close>

definition startScan ::
  "nat \<Rightarrow> gate \<Rightarrow> bool \<Rightarrow> BleServiceClass \<Rightarrow> BleServiceClass \<times> action list" where
  "startScan timeoutMs hasPermission startThrows s =
     (if \<not> manager s \<or> isScanning s then (s, [])
      else case hasPermission of
        Refused msg \<Rightarrow> (s, emit s (OnError msg))
      | Ready \<Rightarrow>
          if startThrows
          then (s\<lparr>isScanning := False\<rparr>,
                StartDeviceScan # emit s (OnError ''Failed to start scanning''))
          else (s\<lparr>isScanning := True, nativeScan := True,
                   timeouts := timeouts s @ [clock s + timeoutMs]\<rparr>,
                [StartDeviceScan, SetTimeout timeoutMs]))"

text \<open>
  What the library passes to the scan listener: an error, or a device (its name and
  signal strength may be null), or neither.
\<close>

record ScannedDevice =
  scanned_id :: string
  scanned_name :: "string option"
  scanned_rssi :: "int option"
  scanned_isConnectable :: "bool option"

datatype scanResult = ScanError string | ScanFound ScannedDevice | ScanNothing

text \<open>
  The scan listener. \<^verbatim>\<open>device.name\<close> is falsy when null or empty; \<^verbatim>\<open>device.rssi || -100\<close>
  replaces null and 0; \<^verbatim>\<open>device.isConnectable ?? true\<close> replaces null.
\<close>

definition scanListener ::
  "scanResult \<Rightarrow> BleServiceClass \<Rightarrow> BleServiceClass \<times> action list" where
  "scanListener r s =
     (case r of
        ScanError msg \<Rightarrow>
          (let (s', tr) = stopScan s
           in (s', ConsoleLog ''Scan error:'' # emit s (OnError (''Scan error: '' @ msg)) @ tr))
      | ScanNothing \<Rightarrow> (s, [])
      | ScanFound d \<Rightarrow>
          (case scanned_name d of
             None \<Rightarrow> (s, [])
           | Some n \<Rightarrow>
               if n = [] then (s, [])
               else (s, emit s (OnDeviceFound
                      \<lparr> dev_id = scanned_id d, dev_name = n,
                        rssi = (case scanned_rssi d of None \<Rightarrow> - 100
                                | Some v \<Rightarrow> if v = 0 then - 100 else v),
                        isConnectable = (case scanned_isConnectable d of None \<Rightarrow> True
                                         | Some b \<Rightarrow> b) \<rparr>))))"

text \<open>The library calls the listener only while its scan runs.\<close>

definition deliverScanResult ::
  "scanResult \<Rightarrow> BleServiceClass \<Rightarrow> BleServiceClass \<times> action list" where
  "deliverScanResult r s = (if nativeScan s then scanListener r s else (s, []))"

text \<open>
  Time passes to \<open>t\<close>: every pending timeout that is due by then fires, in the order
  the timeouts were set, and each runs \<^verbatim>\<open>this.stopScan()\<close>.
\<close>

fun fireTimeouts ::
  "nat \<Rightarrow> nat list \<Rightarrow> BleServiceClass \<Rightarrow> BleServiceClass \<times> action list" where
  "fireTimeouts t [] s = (s\<lparr>timeouts := []\<rparr>, [])"
| "fireTimeouts t (due # dues) s =
     (if due \<le> t
      then (let (s1, tr1) = stopScan s; (s2, tr2) = fireTimeouts t dues s1
            in (s2, tr1 @ tr2))
      else (let (s2, tr2) = fireTimeouts t dues s
            in (s2\<lparr>timeouts := due # timeouts s2\<rparr>, tr2)))"

definition advanceTo :: "nat \<Rightarrow> BleServiceClass \<Rightarrow> BleServiceClass \<times> action list" where
  "advanceTo t s =
     (let (s', tr) = fireTimeouts t (timeouts s) s in (s'\<lparr>clock := max t (clock s)\<rparr>, tr))"


subsection \<open>Acquisition: notifications and polling\<close>

text \<open>
  \<^verbatim>\<open>handleCharacteristicData\<close>: \<open>v\<close> is \<^verbatim>\<open>characteristic?.value\<close>, falsy when null or
  empty. Nothing in the \<^verbatim>\<open>try\<close> throws, so its \<^verbatim>\<open>catch\<close> has no branch here.
\<close>

definition handleCharacteristicData ::
  "int \<Rightarrow> string option \<Rightarrow> BleServiceClass \<Rightarrow> action list" where
  "handleCharacteristicData now v s =
     (case v of
        None \<Rightarrow> []
      | Some b \<Rightarrow>
          if b = [] then []
          else (let data = decodeBase64 b
                in emit s (OnDataReceived (readingOfBytes now data))))"

text \<open>The listener passed to \<^verbatim>\<open>monitorCharacteristicForService\<close>.\<close>

definition monitorListener ::
  "int \<Rightarrow> string option outcome \<Rightarrow> BleServiceClass \<Rightarrow> action list" where
  "monitorListener now r s =
     (case r of
        Rejects e \<Rightarrow> [ConsoleLog ''Voltage notification error:'']
      | Resolves v \<Rightarrow> handleCharacteristicData now v s)"

definition deliverNotification ::
  "int \<Rightarrow> string option outcome \<Rightarrow> BleServiceClass \<Rightarrow> action list" where
  "deliverNotification now r s = (if monitoring s then monitorListener now r s else [])"

definition startPollingData :: "BleServiceClass \<Rightarrow> BleServiceClass \<times> action list" where
  "startPollingData s =
     (case device s of
        None \<Rightarrow> (s, [])
      | Some d \<Rightarrow> (s\<lparr>pollInterval := True\<rparr>, [SetInterval 1000]))"

definition startDataNotifications :: "BleServiceClass \<Rightarrow> BleServiceClass \<times> action list" where
  "startDataNotifications s =
     (case device s of
        None \<Rightarrow> (s, [])
      | Some d \<Rightarrow>
          if monitorThrows d
          then (let (s', tr) = startPollingData s
                in (s', MonitorCharacteristicForService
                        # ConsoleLog ''Failed to setup notifications, trying alternative method''
                        # tr))
          else (s\<lparr>monitoring := True\<rparr>, [MonitorCharacteristicForService]))"

text \<open>
  The inner loop of a polling pass, over the characteristics of one service: the
  actions, and \<^verbatim>\<open>dataFound\<close>. A read that throws is logged and the loop goes on; so it
  does after a value that is null or empty or decodes to fewer than 4 bytes.
\<close>

fun readCharacteristics ::
  "int \<Rightarrow> BleServiceClass \<Rightarrow> Characteristic list \<Rightarrow> action list \<times> bool" where
  "readCharacteristics now s [] = ([], False)"
| "readCharacteristics now s (c # cs) =
     (if isReadable c then
        (case read c of
           Rejects e \<Rightarrow>
             (let (tr, dataFound) = readCharacteristics now s cs
              in (ConsoleLog ''Characteristic read error:'' # tr, dataFound))
         | Resolves v \<Rightarrow>
             (case v of
                None \<Rightarrow> readCharacteristics now s cs
              | Some b \<Rightarrow>
                  if b = [] then readCharacteristics now s cs
                  else (let bytes = decodeBase64 b
                        in if 4 \<le> length bytes
                           then (emit s (OnDataReceived (readingOfBytes now bytes)), True)
                           else readCharacteristics now s cs)))
      else readCharacteristics now s cs)"

text \<open>
  The outer loop, over the services: \<open>Rejects\<close> when \<^verbatim>\<open>service.characteristics()\<close> throws,
  which leaves the pass for the outer \<^verbatim>\<open>catch\<close>.
\<close>

fun readServices ::
  "int \<Rightarrow> BleServiceClass \<Rightarrow> Service list \<Rightarrow> action list \<times> bool outcome" where
  "readServices now s [] = ([], Resolves False)"
| "readServices now s (svc # svcs) =
     (case characteristics svc of
        Rejects e \<Rightarrow> ([], Rejects e)
      | Resolves cs \<Rightarrow>
          (let (tr, dataFound) = readCharacteristics now s cs
           in if dataFound then (tr, Resolves True)
              else (let (tr', r) = readServices now s svcs in (tr @ tr', r))))"

text \<open>The callback of the polling interval: one enumeration pass.\<close>

definition pollCallback :: "int \<Rightarrow> BleServiceClass \<Rightarrow> BleServiceClass \<times> action list" where
  "pollCallback now s =
     (case device s of
        None \<Rightarrow> (s\<lparr>pollInterval := False\<rparr>, [ClearInterval])
      | Some d \<Rightarrow>
          (case services d of
             Rejects e \<Rightarrow>
               (s\<lparr>pollInterval := False\<rparr>,
                ConsoleLog ''Polling error:'' # emit s (OnError ''Error reading from device'')
                  @ [ClearInterval])
           | Resolves svcs \<Rightarrow>
               (case readServices now s svcs of
                  (tr, Rejects e) \<Rightarrow>
                    (s\<lparr>pollInterval := False\<rparr>,
                     tr @ ConsoleLog ''Polling error:''
                        # emit s (OnError ''Error reading from device'') @ [ClearInterval])
                | (tr, Resolves dataFound) \<Rightarrow>
                    if dataFound then (s, tr)
                    else (s\<lparr>pollInterval := False\<rparr>,
                          tr @ emit s (OnError
                            ''Unable to read sensor data from device. Please check your sensor configuration.'')
                             @ [ClearInterval]))))"

text \<open>A second passes: the callback runs if the interval is still scheduled.\<close>

definition pollTick :: "int \<Rightarrow> BleServiceClass \<Rightarrow> BleServiceClass \<times> action list" where
  "pollTick now s = (if pollInterval s then pollCallback now s else (s, []))"

subsection \<open>Connection\<close>

text \<open>
  \<open>answer\<close> is what \<^verbatim>\<open>manager.connectToDevice\<close> answers. The result is the new state,
  the actions and the boolean the method returns.
\<close>

definition connectToDevice ::
  "string \<Rightarrow> Peripheral outcome \<Rightarrow> BleServiceClass \<Rightarrow> BleServiceClass \<times> action list \<times> bool" where
  "connectToDevice deviceId answer s =
     (if \<not> manager s then (s, [], False)
      else
        (let (s1, tr1) = stopScan s
         in case answer of
              Rejects msg \<Rightarrow>
                (s1, tr1 @ ConnectRequest deviceId # ConsoleLog ''Connection error:''
                       # emit s1 (OnError (''Connection failed: '' @ msg)), False)
            | Resolves d \<Rightarrow>
                (let s2 = s1\<lparr>device := Some d\<rparr>
                 in case discoverAllServicesAndCharacteristics d of
                      Rejects msg \<Rightarrow>
                        (s2, tr1 @ ConnectRequest deviceId # DiscoverAllServicesAndCharacteristics
                               # ConsoleLog ''Connection error:''
                               # emit s2 (OnError (''Connection failed: '' @ msg)), False)
                    | Resolves u \<Rightarrow>
                        (let (s3, tr3) = startDataNotifications s2
                         in (s3, tr1 @ ConnectRequest deviceId
                                   # DiscoverAllServicesAndCharacteristics
                                   # emit s2 (OnConnectionStateChange True (name d)) @ tr3,
                             True)))))"

text \<open>The handler registered with \<^verbatim>\<open>this.device.onDisconnected\<close>.\<close>

definition onDisconnected :: "BleServiceClass \<Rightarrow> BleServiceClass \<times> action list" where
  "onDisconnected s =
     (s\<lparr>device := None\<rparr>,
      ConsoleLog ''Device disconnected:'' # emit s (OnConnectionStateChange False None))"

definition disconnect :: "BleServiceClass \<Rightarrow> BleServiceClass \<times> action list" where
  "disconnect s =
     (case device s of
        Some d \<Rightarrow>
          (s\<lparr>device := None\<rparr>,
           CancelConnection
             # (case cancelConnection d of
                  Rejects e \<Rightarrow> [ConsoleLog ''Disconnect error:'']
                | Resolves u \<Rightarrow> [])
             @ emit s (OnConnectionStateChange False None))
      | None \<Rightarrow> (s, emit s (OnConnectionStateChange False None)))"

text \<open>The method \<^verbatim>\<open>isConnected()\<close> of the service.\<close>

definition service_isConnected :: "BleServiceClass \<Rightarrow> bool" where
  "service_isConnected s = (device s \<noteq> None)"


section \<open>Auxiliary predicates\<close>

text \<open>Both histories are within the bound.\<close>

definition histBounded :: "SensorState \<Rightarrow> bool" where
  "histBounded s = (length (voltageHistory s) \<le> MAX_HISTORY_POINTS
     \<and> length (currentHistory s) \<le> MAX_HISTORY_POINTS)"

text \<open>
  The interval is scheduled exactly while the state simulates, and a scheduled
  interval has its handle in the ref.
\<close>

definition timerSynced :: "Hook \<Rightarrow> bool" where
  "timerSynced h = (intervalLive h = isSimulating (state h)
     \<and> (if intervalLive h then intervalRef h else True))"

text \<open>Every element is a byte.\<close>

definition allBytes :: "int list \<Rightarrow> bool" where
  "allBytes xs = list_all (\<lambda>x. 0 \<le> x \<and> x \<le> 255) xs"

text \<open>The actions that are calls of a registered callback.\<close>

fun isCallback :: "action \<Rightarrow> bool" where
  "isCallback (OnDeviceFound d) = True"
| "isCallback (OnConnectionStateChange c n) = True"
| "isCallback (OnDataReceived r) = True"
| "isCallback (OnError m) = True"
| "isCallback a = False"

text \<open>
  A characteristic whose read succeeds in a polling pass: it is readable, the read
  resolves, and the value is a non-empty string that decodes to at least 4 bytes.
\<close>

definition yieldsData :: "Characteristic \<Rightarrow> bool" where
  "yieldsData c =
     (isReadable c \<and>
      (case read c of
         Rejects e \<Rightarrow> False
       | Resolves v \<Rightarrow>
           (case v of None \<Rightarrow> False
            | Some b \<Rightarrow> b \<noteq> [] \<and> 4 \<le> length (decodeBase64 b))))"

text \<open>
  A service whose characteristics can be listed and of which none yields data; one of
  which some characteristic yields data; one whose \<^verbatim>\<open>characteristics()\<close> throws.
\<close>

definition serviceWithoutData :: "Service \<Rightarrow> bool" where
  "serviceWithoutData svc =
     (case characteristics svc of Rejects e \<Rightarrow> False
      | Resolves cs \<Rightarrow> \<not> list_ex yieldsData cs)"

definition serviceWithData :: "Service \<Rightarrow> bool" where
  "serviceWithData svc =
     (case characteristics svc of Rejects e \<Rightarrow> False
      | Resolves cs \<Rightarrow> list_ex yieldsData cs)"

definition serviceThrows :: "Service \<Rightarrow> bool" where
  "serviceThrows svc = (case characteristics svc of Rejects e \<Rightarrow> True | Resolves cs \<Rightarrow> False)"

text \<open>Every action but the log line of a read that threw.\<close>

definition notReadLog :: "action \<Rightarrow> bool" where
  "notReadLog a = (a \<noteq> ConsoleLog ''Characteristic read error:'')"

text \<open>
  What can happen to a running scan before its timeout fires: the library delivers a
  result to the listener, or \<^verbatim>\<open>stopScan()\<close> is called.
\<close>

datatype scanEvent = Delivered scanResult | StopRequested

fun scanStep :: "scanEvent \<Rightarrow> BleServiceClass \<Rightarrow> BleServiceClass \<times> action list" where
  "scanStep (Delivered r) s = deliverScanResult r s"
| "scanStep StopRequested s = stopScan s"

fun runScanEvents :: "scanEvent list \<Rightarrow> BleServiceClass \<Rightarrow> BleServiceClass \<times> action list" where
  "runScanEvents [] s = (s, [])"
| "runScanEvents (e # es) s =
     (let (s1, tr1) = scanStep e s; (s2, tr2) = runScanEvents es s1 in (s2, tr1 @ tr2))"

text \<open>
  A service with a manager whose scanning flag agrees with the library: the library
  scans exactly while \<open>isScanning\<close> is set.
\<close>

definition scanInv :: "BleServiceClass \<Rightarrow> bool" where
  "scanInv s = (manager s \<and> nativeScan s = isScanning s)"

section \<open>History: bound and contents\<close>

lemma slice_last_length: "length (slice_last n xs) \<le> n"
  by (simp add: slice_last_def)

lemma slice_last_short: "length xs \<le> n \<Longrightarrow> slice_last n xs = xs"
  by (simp add: slice_last_def)

lemma slice_last_snoc: "0 < n \<Longrightarrow> slice_last n (slice_last n xs @ [x]) = slice_last n (xs @ [x])"
proof (cases "length xs \<le> n")
  case True
  then show ?thesis by (simp add: slice_last_def)
next
  case False
  assume "0 < n"
  with False have "Suc (length xs) - (length xs - n + n) + (length xs - n) = Suc (length xs) - n"
    by arith
  with False show ?thesis by (simp add: slice_last_def)
qed

lemma slice_last_append_long: "n \<le> length ys \<Longrightarrow> slice_last n (xs @ ys) = drop (length ys - n) ys"
  by (simp add: slice_last_def)

lemma state_setState: "state (setState f h) = f (state h)"
  by (simp add: setState_def effectBody_def effectCleanup_def Let_def)

lemma timerSynced_setState: "timerSynced h \<Longrightarrow> timerSynced (setState f h)"
  by (auto simp add: timerSynced_def setState_def effectBody_def effectCleanup_def Let_def)

lemmas hook_ops = setConnectionMode_def startSimulation_def
     stopSimulation_def connectToRealDevice_def disconnectRealDevice_def updateRealReading_def
     toggleConnection_def clearHistory_def simulationTick_def

lemma histBounded_applyOp: "histBounded (state h) \<Longrightarrow> histBounded (state (applyOp h op))"
  by (cases op) (auto simp: histBounded_def state_setState hook_ops recordReading_def slice_last_length Let_def)

lemma timerSynced_applyOp: "timerSynced h \<Longrightarrow> timerSynced (applyOp h op)"
  by (cases op) (auto simp: hook_ops timerSynced_setState)

lemma reachable_inv: "histBounded (state h) \<and> timerSynced h \<Longrightarrow> histBounded (state (runOps ops h)) \<and> timerSynced (runOps ops h)"
  unfolding runOps_def
  by (induction ops arbitrary: h) (auto simp: histBounded_applyOp timerSynced_applyOp)

lemma initial_inv: "histBounded (state initialHook) \<and> timerSynced initialHook"
  by (simp add: histBounded_def timerSynced_def initialHook_def initialState_def)

lemma recordReading_fold:
  "voltageHistory (foldl (\<lambda>s r. recordReading r s) (recordReading r0 s) rs) =
     slice_last MAX_HISTORY_POINTS (voltageHistory s @ map voltagePoint (r0 # rs)) \<and>
   currentHistory (foldl (\<lambda>s r. recordReading r s) (recordReading r0 s) rs) =
     slice_last MAX_HISTORY_POINTS (currentHistory s @ map currentPoint (r0 # rs))"
proof (induction rs rule: rev_induct)
  case Nil
  show ?case by (simp add: recordReading_def Let_def)
next
  case (snoc r rs)
  then show ?case
    using slice_last_snoc [of 60 "voltageHistory s @ voltagePoint r0 # map voltagePoint rs" "voltagePoint r"]
      slice_last_snoc [of 60 "currentHistory s @ currentPoint r0 # map currentPoint rs" "currentPoint r"]
    by (simp add: recordReading_def Let_def MAX_HISTORY_POINTS_def)
qed

lemma recordReading_fold_bounded:
  assumes "histBounded s"
  shows "voltageHistory (foldl (\<lambda>s r. recordReading r s) s rs) =
     slice_last MAX_HISTORY_POINTS (voltageHistory s @ map voltagePoint rs) \<and>
   currentHistory (foldl (\<lambda>s r. recordReading r s) s rs) =
     slice_last MAX_HISTORY_POINTS (currentHistory s @ map currentPoint rs)"
proof (cases rs)
  case Nil
  with assms show ?thesis by (simp add: histBounded_def slice_last_short)
next
  case (Cons r0 rs')
  then show ?thesis using recordReading_fold [of r0 s rs'] by simp
qed

lemma state_update_all:
  "state (runOps (map UpdateRealReading rs) h) = foldl (\<lambda>s r. recordReading r s) (state h) rs"
  unfolding runOps_def
  by (induction rs arbitrary: h) (simp_all add: updateRealReading_def state_setState)

lemma isSimulating_recordReading: "isSimulating (recordReading r s) = isSimulating s"
  by (simp add: recordReading_def Let_def)

lemma tick_live:
  "intervalLive h \<Longrightarrow> intervalLive (simulationTick r h) \<and> state (simulationTick r h) = recordReading r (state h)"
  by (simp add: simulationTick_def setState_def Let_def isSimulating_recordReading)

lemma state_tick_all:
  "intervalLive h \<Longrightarrow>
   state (runOps (map SimulationTick rs) h) = foldl (\<lambda>s r. recordReading r s) (state h) rs"
  unfolding runOps_def
  by (induction rs arbitrary: h) (simp_all add: tick_live)

text \<open>
  C1. After any sequence of operations of the hook from its initial state, each of
  \<open>voltageHistory\<close> and \<open>currentHistory\<close> holds at most 60 points. Recording the readings
  \<open>rs\<close> from there, by \<open>updateRealReading\<close> or, while simulating, by the simulation tick,
  leaves in each history the last 60 points of the old history followed by the points
  of \<open>rs\<close>, in that order; once 60 or more readings have been recorded the history is
  exactly the points of the 60 most recent ones.
\<close>

theorem history_bounded_most_recent:
  "(let h = runOps ops initialHook;
        live = runOps (map UpdateRealReading rs) h;
        sim = runOps (map SimulationTick rs) h
    in length (voltageHistory (state h)) \<le> 60
     \<and> length (currentHistory (state h)) \<le> 60
     \<and> voltageHistory (state live) = slice_last 60 (voltageHistory (state h) @ map voltagePoint rs)
     \<and> currentHistory (state live) = slice_last 60 (currentHistory (state h) @ map currentPoint rs)
     \<and> (isSimulating (state h) \<longrightarrow>
          voltageHistory (state sim) = slice_last 60 (voltageHistory (state h) @ map voltagePoint rs)
        \<and> currentHistory (state sim) = slice_last 60 (currentHistory (state h) @ map currentPoint rs))
     \<and> (60 \<le> length rs \<longrightarrow>
          voltageHistory (state live) = drop (length rs - 60) (map voltagePoint rs)
        \<and> currentHistory (state live) = drop (length rs - 60) (map currentPoint rs)
        \<and> length (voltageHistory (state live)) = 60
        \<and> length (currentHistory (state live)) = 60))"
proof -
  define h where "h = runOps ops initialHook"
  have inv: "histBounded (state h)" and sync: "timerSynced h"
    using reachable_inv [OF initial_inv, of ops] by (simp_all add: h_def)
  have bounds: "length (voltageHistory (state h)) \<le> 60 \<and> length (currentHistory (state h)) \<le> 60"
    using inv by (simp add: histBounded_def MAX_HISTORY_POINTS_def)
  have live: "voltageHistory (state (runOps (map UpdateRealReading rs) h)) =
        slice_last 60 (voltageHistory (state h) @ map voltagePoint rs)
      \<and> currentHistory (state (runOps (map UpdateRealReading rs) h)) =
        slice_last 60 (currentHistory (state h) @ map currentPoint rs)"
    using recordReading_fold_bounded [OF inv, of rs]
    by (simp add: state_update_all MAX_HISTORY_POINTS_def)
  have sim: "voltageHistory (state (runOps (map SimulationTick rs) h)) =
        slice_last 60 (voltageHistory (state h) @ map voltagePoint rs)
      \<and> currentHistory (state (runOps (map SimulationTick rs) h)) =
        slice_last 60 (currentHistory (state h) @ map currentPoint rs)"
    if "isSimulating (state h)"
  proof -
    from that sync have "intervalLive h" by (simp add: timerSynced_def)
    then show ?thesis
      using recordReading_fold_bounded [OF inv, of rs]
      by (simp add: state_tick_all MAX_HISTORY_POINTS_def)
  qed
  have long: "voltageHistory (state (runOps (map UpdateRealReading rs) h)) = drop (length rs - 60) (map voltagePoint rs)
        \<and> currentHistory (state (runOps (map UpdateRealReading rs) h)) = drop (length rs - 60) (map currentPoint rs)
        \<and> length (voltageHistory (state (runOps (map UpdateRealReading rs) h))) = 60
        \<and> length (currentHistory (state (runOps (map UpdateRealReading rs) h))) = 60"
    if "60 \<le> length rs"
    using that live by (simp add: slice_last_append_long)
  show ?thesis
    unfolding Let_def h_def [symmetric]
    using bounds live sim long by blast
qed


theorem history_bounded_most_recent_witness:
  "(let rs = map (\<lambda>i. \<lparr> voltage = Num (of_nat i), current = Num 1, temperature = Num 36,
                          ph = Num 7, timestamp = int i \<rparr>) [0..<61];
        h = runOps [StartSimulation (Some ''X'')] initialHook;
        sim = runOps (map SimulationTick rs) h;
        live = runOps (map UpdateRealReading rs) h
    in isSimulating (state h) \<and> 60 \<le> length rs
     \<and> voltageHistory (state sim) = slice_last 60 (voltageHistory (state h) @ map voltagePoint rs)
     \<and> voltageHistory (state live) = drop (length rs - 60) (map voltagePoint rs)
     \<and> length (currentHistory (state live)) = 60)"
proof -
  define rs where "rs = map (\<lambda>i. \<lparr> voltage = Num (of_nat i), current = Num 1,
    temperature = Num 36, ph = Num 7, timestamp = int i \<rparr>) [0..<61]"
  define h where "h = runOps [StartSimulation (Some ''X'')] initialHook"
  have len: "60 \<le> length rs" by (simp add: rs_def)
  have sim: "isSimulating (state h)"
    by (simp add: h_def runOps_def startSimulation_def setState_def initialHook_def
        initialState_def effectBody_def Let_def)
  have inst: "length (voltageHistory (state h)) \<le> 60
     \<and> length (currentHistory (state h)) \<le> 60
     \<and> voltageHistory (state (runOps (map UpdateRealReading rs) h)) =
         slice_last 60 (voltageHistory (state h) @ map voltagePoint rs)
     \<and> currentHistory (state (runOps (map UpdateRealReading rs) h)) =
         slice_last 60 (currentHistory (state h) @ map currentPoint rs)
     \<and> (isSimulating (state h) \<longrightarrow>
          voltageHistory (state (runOps (map SimulationTick rs) h)) =
            slice_last 60 (voltageHistory (state h) @ map voltagePoint rs)
        \<and> currentHistory (state (runOps (map SimulationTick rs) h)) =
            slice_last 60 (currentHistory (state h) @ map currentPoint rs))
     \<and> (60 \<le> length rs \<longrightarrow>
          voltageHistory (state (runOps (map UpdateRealReading rs) h)) =
            drop (length rs - 60) (map voltagePoint rs)
        \<and> currentHistory (state (runOps (map UpdateRealReading rs) h)) =
            drop (length rs - 60) (map currentPoint rs)
        \<and> length (voltageHistory (state (runOps (map UpdateRealReading rs) h))) = 60
        \<and> length (currentHistory (state (runOps (map UpdateRealReading rs) h))) = 60)"
    using history_bounded_most_recent [of "[StartSimulation (Some ''X'')]" rs]
    unfolding Let_def h_def [symmetric] .
  show ?thesis
    unfolding Let_def rs_def [symmetric] h_def [symmetric]
    using inst sim len by blast
qed

section \<open>Mode switch and simulation\<close>

text \<open>The label \<open>startSimulation\<close> stores: the one given, or the default for an empty one.\<close>

lemma startSimulation_label:
  "connectedDeviceName (state (startSimulation (Some n) h)) =
     Some (if n = [] then ''Simulated Device'' else n)"
  "connectedDeviceName (state (startSimulation None h)) = Some ''Simulated Device''"
  by (simp_all add: startSimulation_def state_setState)

text \<open>
  C7. In every state the hook can reach, \<open>setConnectionMode\<close> to simulated followed by
  \<^verbatim>\<open>startSimulation("X")\<close> gives a connected, simulating state whose device name is "X",
  with the generator's interval scheduled; \<open>setConnectionMode\<close> to real, from that state
  as from any reachable one, leaves the state disconnected and not simulating with no
  device name, the interval is cleared, and a simulation tick changes nothing.
\<close>

theorem mode_switch_and_simulation:
  "(let h = runOps ops initialHook;
        h1 = startSimulation (Some ''X'') (setConnectionMode ModeSimulated h);
        h2 = setConnectionMode ModeReal h1;
        h3 = setConnectionMode ModeReal h
    in isConnected (state h1) \<and> isSimulating (state h1)
     \<and> connectedDeviceName (state h1) = Some ''X''
     \<and> connectionMode (state h1) = ModeSimulated
     \<and> intervalLive h1
     \<and> \<not> isConnected (state h2) \<and> \<not> isSimulating (state h2)
     \<and> connectedDeviceName (state h2) = None
     \<and> connectionMode (state h2) = ModeReal
     \<and> \<not> intervalLive h2 \<and> simulationTick r h2 = h2
     \<and> \<not> isConnected (state h3) \<and> \<not> isSimulating (state h3)
     \<and> connectedDeviceName (state h3) = None
     \<and> \<not> intervalLive h3 \<and> simulationTick r h3 = h3)"
proof -
  define h where "h = runOps ops initialHook"
  define h1 where "h1 = startSimulation (Some ''X'') (setConnectionMode ModeSimulated h)"
  have sync: "timerSynced h"
    using reachable_inv [OF initial_inv, of ops] by (simp add: h_def)
  then have sync1: "timerSynced h1"
    by (simp add: h1_def startSimulation_def setConnectionMode_def timerSynced_setState)
  have st1: "isConnected (state h1) \<and> isSimulating (state h1)
     \<and> connectedDeviceName (state h1) = Some ''X'' \<and> connectionMode (state h1) = ModeSimulated"
    by (simp add: h1_def startSimulation_def setConnectionMode_def state_setState)
  with sync1 have live1: "intervalLive h1" by (simp add: timerSynced_def)
  have off: "\<not> isConnected (state (setConnectionMode ModeReal k))
     \<and> \<not> isSimulating (state (setConnectionMode ModeReal k))
     \<and> connectedDeviceName (state (setConnectionMode ModeReal k)) = None
     \<and> connectionMode (state (setConnectionMode ModeReal k)) = ModeReal
     \<and> \<not> intervalLive (setConnectionMode ModeReal k)
     \<and> simulationTick r (setConnectionMode ModeReal k) = setConnectionMode ModeReal k"
    if "timerSynced k" for k
  proof -
    have s: "timerSynced (setConnectionMode ModeReal k)"
      using that by (simp add: setConnectionMode_def timerSynced_setState)
    have f: "\<not> isConnected (state (setConnectionMode ModeReal k))
     \<and> \<not> isSimulating (state (setConnectionMode ModeReal k))
     \<and> connectedDeviceName (state (setConnectionMode ModeReal k)) = None
     \<and> connectionMode (state (setConnectionMode ModeReal k)) = ModeReal"
      by (simp add: setConnectionMode_def state_setState)
    with s have "\<not> intervalLive (setConnectionMode ModeReal k)" by (simp add: timerSynced_def)
    with f show ?thesis by (simp add: simulationTick_def)
  qed
  show ?thesis
    unfolding Let_def h_def [symmetric] h1_def [symmetric]
    using st1 live1 off [OF sync] off [OF sync1] by simp
qed

theorem mode_switch_and_simulation_witness:
  "(let h = runOps [ToggleConnection, UpdateRealReading \<lparr> voltage = Num 3, current = Num 1,
                      temperature = Num 36, ph = Num 7, timestamp = 5 \<rparr>] initialHook;
        h1 = startSimulation (Some ''X'') (setConnectionMode ModeSimulated h);
        h2 = setConnectionMode ModeReal h1
    in isConnected (state h1) \<and> connectedDeviceName (state h1) = Some ''X''
     \<and> intervalLive h1 \<and> \<not> isConnected (state h2) \<and> \<not> intervalLive h2)"
  using mode_switch_and_simulation [of "[ToggleConnection, UpdateRealReading \<lparr> voltage = Num 3,
    current = Num 1, temperature = Num 36, ph = Num 7, timestamp = 5 \<rparr>]"]
  by (simp add: Let_def)

text \<open>
  C10. From a state that is not connected and whose mode is real, \<open>toggleConnection\<close>
  gives a state that is connected, not simulating, and has no device name. The operation
  is a function of the hook alone: it makes no call on the BLE service.
\<close>

theorem toggle_connects_without_device:
  "\<not> isConnected (state h) \<Longrightarrow> connectionMode (state h) = ModeReal \<Longrightarrow>
     isConnected (state (toggleConnection h))
   \<and> \<not> isSimulating (state (toggleConnection h))
   \<and> connectedDeviceName (state (toggleConnection h)) = None
   \<and> connectionMode (state (toggleConnection h)) = ModeReal"
  by (simp add: toggleConnection_def state_setState)

theorem toggle_connects_without_device_witness:
  "(let h = setConnectionMode ModeReal initialHook
    in \<not> isConnected (state h) \<and> connectionMode (state h) = ModeReal
     \<and> isConnected (state (toggleConnection h))
     \<and> \<not> isSimulating (state (toggleConnection h))
     \<and> connectedDeviceName (state (toggleConnection h)) = None)"
proof -
  define h where "h = setConnectionMode ModeReal initialHook"
  have a: "\<not> isConnected (state h)" and b: "connectionMode (state h) = ModeReal"
    by (simp_all add: h_def setConnectionMode_def state_setState)
  show ?thesis
    unfolding Let_def h_def [symmetric]
    using toggle_connects_without_device [OF a b] a b by simp
qed



section \<open>The decoder: what it returns\<close>

text \<open>
  The array the decoder allocates never has a negative length, so its \<^verbatim>\<open>catch\<close> is
  never entered; and what it returns are bytes.
\<close>

lemma storeByte_length: "length (storeByte bytes p v) = length bytes"
  by (simp add: storeByte_def)

lemma storeByte_allBytes: "allBytes bytes \<Longrightarrow> allBytes (storeByte bytes p v)"
proof -
  assume a: "allBytes bytes"
  have "0 \<le> v mod 256 \<and> v mod 256 \<le> 255" by simp
  with a show ?thesis
    by (auto simp: allBytes_def storeByte_def list_all_iff dest!: set_update_subset_insert [THEN subsetD])
qed

lemma decodeLoop_invariant:
  assumes step: "\<And>bs q v. P bs \<Longrightarrow> P (storeByte bs q v)"
  shows "P bytes \<Longrightarrow> P (decodeLoop base64 i bytes p)"
proof (induction base64 i bytes p rule: decodeLoop.induct)
  case (1 base64 i bytes p)
  show ?case
  proof (cases "i < length base64")
    case True
    show ?thesis
      apply (subst decodeLoop.simps)
      apply (simp only: True if_True Let_def)
      apply (rule "1.IH" [OF True refl refl refl refl refl refl refl refl refl refl refl refl])
      apply (simp add: step "1.prems")
      done
  next
    case False
    then show ?thesis using "1.prems" by (subst decodeLoop.simps) simp
  qed
qed

lemma decodeLoop_length: "length (decodeLoop base64 i bytes p) = length bytes"
  by (rule decodeLoop_invariant [where P = "\<lambda>bs. length bs = length bytes"])
     (simp_all add: storeByte_length)

lemma decodeLoop_allBytes: "allBytes bytes \<Longrightarrow> allBytes (decodeLoop base64 i bytes p)"
  by (rule decodeLoop_invariant [where P = allBytes]) (simp_all add: storeByte_allBytes)

lemma bufferLength_lower: "- 1 < bufferLength base64"
proof (cases base64 rule: rev_cases)
  case Nil
  then show ?thesis by (simp add: bufferLength_def charAt_def)
next
  case (snoc ys y)
  note outer = snoc
  show ?thesis
  proof (cases ys rule: rev_cases)
    case Nil
    with outer show ?thesis by (simp add: bufferLength_def charAt_def Let_def)
  next
    case (snoc zs z)
    have "(3::rat) / 4 * of_int (int (length zs) + 2) \<ge> 3 / 2" by simp
    with outer snoc show ?thesis 
      by (auto simp add: bufferLength_def charAt_def Let_def algebra_simps)
  qed
qed

lemma newUint8Array_total: "- 1 < n \<Longrightarrow> \<exists>bytes. newUint8Array n = Some bytes \<and> allBytes bytes"
proof -
  assume a: "- 1 < n"
  have "0 \<le> (if n < 0 then \<lceil>n\<rceil> else \<lfloor>n\<rfloor>)"
  proof (cases "n < 0")
    case True
    with a show ?thesis by simp
  next
    case False
    then show ?thesis by simp
  qed
  then show ?thesis by (simp add: newUint8Array_def Let_def allBytes_def list_all_iff)
qed

lemma decodeBase64_allBytes: "allBytes (decodeBase64 base64)"
proof -
  obtain bytes where "newUint8Array (bufferLength base64) = Some bytes" "allBytes bytes"
    using newUint8Array_total [OF bufferLength_lower] by blast
  then show ?thesis by (simp add: decodeBase64_def decodeLoop_allBytes)
qed

lemma decodeBase64_never_fallback: "decodeBase64 base64 \<noteq> fallbackBytes"
proof
  assume "decodeBase64 base64 = fallbackBytes"
  with decodeBase64_allBytes [of base64] show False
    by (simp add: fallbackBytes_def allBytes_def)
qed


lemma decode_AAA: "decodeBase64 ''AAA='' = [0, 0]"
  by code_simp

lemma decode_bangs: "decodeBase64 ''!!!!'' = [255, 0, 0]"
  by code_simp

lemma decode_example: "decodeBase64 ''+nhtSA=='' = [250, 120, 109, 72]"
  by code_simp

text \<open>
  C2. A payload that decodes to fewer than 4 bytes, and a string that is not base64, do
  not give the fallback reading. The notification path builds a reading from the bytes
  there are: the 2-byte payload \<^verbatim>\<open>AAA=\<close> gives voltage 0, current 0 and \<^verbatim>\<open>NaN\<close> for
  temperature and ph; the invalid string \<^verbatim>\<open>!!!!\<close> decodes to the bytes 255, 0, 0 and
  gives voltage 2.55 and \<^verbatim>\<open>NaN\<close> for ph. The fallback bytes, which would give the reading
  3.00, 1.00, 37.0, 7.0, are returned for no string at all.
\<close>

theorem malformed_payload_not_fallback:
  "decodeBase64 ''AAA='' = [0, 0]
   \<and> handleCharacteristicData now (Some ''AAA='') s =
       emit s (OnDataReceived \<lparr> voltage = Num 0, current = Num 0, temperature = NaN,
                                 ph = NaN, timestamp = now \<rparr>)
   \<and> decodeBase64 ''!!!!'' = [255, 0, 0]
   \<and> handleCharacteristicData now (Some ''!!!!'') s =
       emit s (OnDataReceived \<lparr> voltage = Num 2.55, current = Num 0, temperature = Num 0,
                                 ph = NaN, timestamp = now \<rparr>)
   \<and> readingOfBytes now fallbackBytes =
       \<lparr> voltage = Num 3, current = Num 1, temperature = Num 37, ph = Num 7, timestamp = now \<rparr>
   \<and> decodeBase64 base64 \<noteq> fallbackBytes"
proof -
  have "readingOfBytes now fallbackBytes =
       \<lparr> voltage = Num 3, current = Num 1, temperature = Num 37, ph = Num 7, timestamp = now \<rparr>"
    by (simp add: readingOfBytes_def element_def divide_js_def fallbackBytes_def)
  then show ?thesis
    by (simp add: decode_AAA decode_bangs decodeBase64_never_fallback
        handleCharacteristicData_def readingOfBytes_def element_def divide_js_def)
qed

text \<open>
  C4, as the claim states it: the payload carrying 250, 120, 365, 72 does not decode to a
  temperature of 36.5. The byte array keeps 365 as 109, and the 4-byte payload with the
  bytes 250, 120, 109, 72 decodes to the temperature 10.9.
\<close>

theorem payload_365_counterexample:
  "storeByte [0] 0 365 = [109]
   \<and> decodeBase64 ''+nhtSA=='' = [250, 120, 109, 72]
   \<and> readingOfBytes 0 (decodeBase64 ''+nhtSA=='') =
       \<lparr> voltage = Num 2.5, current = Num 1.2, temperature = Num 10.9, ph = Num 7.2,
         timestamp = 0 \<rparr>
   \<and> temperature (readingOfBytes 0 (decodeBase64 ''+nhtSA=='')) \<noteq> Num 36.5"
  by (simp add: decode_example storeByte_def readingOfBytes_def element_def divide_js_def)

lemma allBytes_nth: "allBytes xs \<Longrightarrow> i < length xs \<Longrightarrow> 0 \<le> xs ! i \<and> xs ! i \<le> 255"
  by (simp add: allBytes_def list_all_length)

text \<open>
  C4, amended. For every payload that decodes to at least 4 bytes, both
  acquisition paths deliver the reading with voltage = byte 0 / 100, current =
  byte 1 / 100, temperature = byte 2 / 10, ph = byte 3 / 10 and the acquisition time as
  timestamp; each of the four is a byte, between 0 and 255, so the temperature is at
  most 25.5. In particular the 4-byte payload 250, 120, 109, 72 gives 2.50, 1.20, 10.9,
  7.2.
\<close>

theorem decoded_reading_fields:
  assumes "4 \<le> length (decodeBase64 base64)"
  shows "(let data = decodeBase64 base64;
              reading = \<lparr> voltage = Num (of_int (data ! 0) / 100),
                          current = Num (of_int (data ! 1) / 100),
                          temperature = Num (of_int (data ! 2) / 10),
                          ph = Num (of_int (data ! 3) / 10),
                          timestamp = now \<rparr>
          in handleCharacteristicData now (Some base64) s = emit s (OnDataReceived reading)
           \<and> readCharacteristics now s (\<lparr> isReadable = True, read = Resolves (Some base64) \<rparr> # cs)
               = (emit s (OnDataReceived reading), True)
           \<and> list_all (\<lambda>b. 0 \<le> b \<and> b \<le> 255) [data ! 0, data ! 1, data ! 2, data ! 3]
           \<and> of_int (data ! 2) / 10 \<le> (25.5 :: real))
         \<and> decodeBase64 ''+nhtSA=='' = [250, 120, 109, 72]
         \<and> readingOfBytes now [250, 120, 109, 72] =
             \<lparr> voltage = Num 2.5, current = Num 1.2, temperature = Num 10.9, ph = Num 7.2,
               timestamp = now \<rparr>"
proof -
  define data where "data = decodeBase64 base64"
  have len: "4 \<le> length data" using assms by (simp add: data_def)
  have ne: "base64 \<noteq> []"
  proof
    assume "base64 = []"
    moreover have "decodeBase64 [] = []" by code_simp
    ultimately show False using assms by simp
  qed
  have bytes: "allBytes data" by (simp add: data_def decodeBase64_allBytes)
  have r: "readingOfBytes now data = \<lparr> voltage = Num (of_int (data ! 0) / 100),
       current = Num (of_int (data ! 1) / 100), temperature = Num (of_int (data ! 2) / 10),
       ph = Num (of_int (data ! 3) / 10), timestamp = now \<rparr>"
  proof -
    from len have "data \<noteq> []" "1 < length data" "2 < length data" "3 < length data"
      by auto
    then show ?thesis by (simp add: readingOfBytes_def element_def divide_js_def)
  qed
  have h: "handleCharacteristicData now (Some base64) s =
      emit s (OnDataReceived (readingOfBytes now data))"
    using ne by (simp add: handleCharacteristicData_def data_def Let_def)
  have p: "readCharacteristics now s (\<lparr> isReadable = True, read = Resolves (Some base64) \<rparr> # cs)
      = (emit s (OnDataReceived (readingOfBytes now data)), True)"
    using ne assms by (simp add: data_def Let_def)
  have lens: "0 < length data" "1 < length data" "2 < length data" "3 < length data"
    using len by linarith+
  have b: "0 \<le> data ! 0 \<and> data ! 0 \<le> 255" "0 \<le> data ! 1 \<and> data ! 1 \<le> 255"
    "0 \<le> data ! 2 \<and> data ! 2 \<le> 255" "0 \<le> data ! 3 \<and> data ! 3 \<le> 255"
    by (rule allBytes_nth [OF bytes lens(1)], rule allBytes_nth [OF bytes lens(2)],
        rule allBytes_nth [OF bytes lens(3)], rule allBytes_nth [OF bytes lens(4)])
  have t: "of_int (data ! 2) / 10 \<le> (25.5 :: real)"
  proof -
    from b(3) have "(of_int (data ! 2) :: real) \<le> 255" by simp
    then show ?thesis by simp
  qed
  have ex: "readingOfBytes now [250, 120, 109, 72] =
             \<lparr> voltage = Num 2.5, current = Num 1.2, temperature = Num 10.9, ph = Num 7.2,
               timestamp = now \<rparr>"
    by (simp add: readingOfBytes_def element_def divide_js_def)
  show ?thesis
    unfolding Let_def data_def [symmetric]
    using h p b t ex decode_example by (simp add: r)
qed

theorem decoded_reading_fields_witness:
  "4 \<le> length (decodeBase64 ''+nhtSA=='')
   \<and> handleCharacteristicData 1000 (Some ''+nhtSA=='')
        \<lparr> manager = True, device = None, isScanning = False, callbacks = True,
          isInitialized = True, initError = None, nativeScan = False, timeouts = [],
          clock = 0, monitoring = True, pollInterval = False \<rparr>
      = [OnDataReceived \<lparr> voltage = Num 2.5, current = Num 1.2, temperature = Num 10.9,
                           ph = Num 7.2, timestamp = 1000 \<rparr>]"
proof -
  have l: "4 \<le> length (decodeBase64 ''+nhtSA=='')" by (simp add: decode_example)
  show ?thesis
    using decoded_reading_fields [OF l, of 1000 "\<lparr> manager = True, device = None,
      isScanning = False, callbacks = True, isInitialized = True, initError = None,
      nativeScan = False, timeouts = [], clock = 0, monitoring = True, pollInterval = False \<rparr>"]
      l
    by (simp add: Let_def decode_example emit_def)
qed

section \<open>Connection lifecycle\<close>

text \<open>
  C5. When the transport connection succeeds and the enumeration
  \<^verbatim>\<open>discoverAllServicesAndCharacteristics\<close> then fails, \<open>connectToDevice\<close> returns false, the
  only callback is \<open>onError\<close> with the connection-failed message, and no connected-state
  event is sent; but \<^verbatim>\<open>this.device\<close> keeps the peripheral, so \<^verbatim>\<open>isConnected()\<close> answers
  true.
\<close>

theorem enumeration_failure_leaves_device:
  "(let d' = d\<lparr>discoverAllServicesAndCharacteristics := Rejects msg\<rparr>;
        result = connectToDevice deviceId (Resolves d') (s\<lparr>manager := True\<rparr>);
        s' = fst result; tr = fst (snd result); ok = snd (snd result)
    in ok = False
     \<and> device s' = Some d'
     \<and> service_isConnected s' = True
     \<and> filter isCallback tr = emit s (OnError (''Connection failed: '' @ msg)))"
  by (simp add: connectToDevice_def stopScan_def service_isConnected_def emit_def Let_def)

text \<open>
  C6, as the claim states it: \<open>disconnect\<close> with no active connection is not without
  effect. With callbacks registered it calls \<^verbatim>\<open>onConnectionStateChange(false)\<close>.
\<close>

theorem disconnect_idle_counterexample:
  "(let idle = \<lparr> manager = True, device = None, isScanning = False, callbacks = True,
          isInitialized = True, initError = None, nativeScan = False, timeouts = [],
          clock = 0, monitoring = False, pollInterval = False \<rparr>
    in disconnect idle = (idle, [OnConnectionStateChange False None])
     \<and> snd (disconnect idle) \<noteq> [])"
  by (simp add: disconnect_def emit_def)

text \<open>
  C6, amended. With no active connection \<open>disconnect\<close> leaves the service unchanged and
  its only action is the disconnect event \<^verbatim>\<open>onConnectionStateChange(false)\<close>. With an active
  connection it requests cancellation, logs a cancellation error without passing it to
  \<open>onError\<close>, clears the device and sends the same event. In both cases the only callback
  is that event (so never \<open>onError\<close>), the device is cleared afterwards, and a second
  \<open>disconnect\<close> changes nothing more and sends the event again.
\<close>

theorem disconnect_behaviour:
  "(device s = None \<longrightarrow>
      fst (disconnect s) = s \<and> snd (disconnect s) = emit s (OnConnectionStateChange False None))
   \<and> (device s = Some d \<longrightarrow>
      fst (disconnect s) = s\<lparr>device := None\<rparr>
      \<and> snd (disconnect s) =
          CancelConnection
            # (case cancelConnection d of Rejects e \<Rightarrow> [ConsoleLog ''Disconnect error:'']
               | Resolves u \<Rightarrow> [])
            @ emit s (OnConnectionStateChange False None))
   \<and> filter isCallback (snd (disconnect s)) = emit s (OnConnectionStateChange False None)
   \<and> device (fst (disconnect s)) = None
   \<and> disconnect (fst (disconnect s)) =
       (fst (disconnect s), emit s (OnConnectionStateChange False None))"
  by (cases "device s") (auto simp: disconnect_def emit_def split: outcome.splits)

theorem disconnect_behaviour_witness:
  "(let d = \<lparr> name = Some ''Sensor'', discoverAllServicesAndCharacteristics = Resolves (),
              monitorThrows = False, services = Resolves [],
              cancelConnection = Rejects ''gone'' \<rparr>;
        s = \<lparr> manager = True, device = Some d, isScanning = False, callbacks = True,
              isInitialized = True, initError = None, nativeScan = False, timeouts = [],
              clock = 0, monitoring = True, pollInterval = False \<rparr>
    in device s = Some d
     \<and> disconnect s = (s\<lparr>device := None\<rparr>,
          [CancelConnection, ConsoleLog ''Disconnect error:'', OnConnectionStateChange False None])
     \<and> disconnect (fst (disconnect s)) = (s\<lparr>device := None\<rparr>, [OnConnectionStateChange False None]))"
proof -
  define d where "d = \<lparr> name = Some ''Sensor'',
    discoverAllServicesAndCharacteristics = Resolves (), monitorThrows = False,
    services = Resolves [], cancelConnection = Rejects ''gone'' \<rparr>"
  define s where "s = \<lparr> manager = True, device = Some d, isScanning = False,
    callbacks = True, isInitialized = True, initError = None, nativeScan = False,
    timeouts = [], clock = 0, monitoring = True, pollInterval = False \<rparr>"
  have dv: "device s = Some d" by (simp add: s_def)
  have c: "cancelConnection d = Rejects ''gone''" by (simp add: d_def)
  have e: "emit s (OnConnectionStateChange False None) = [OnConnectionStateChange False None]"
    by (simp add: emit_def s_def)
  from disconnect_behaviour [of s d] dv
  have f: "fst (disconnect s) = s\<lparr>device := None\<rparr>"
    and t: "snd (disconnect s) = CancelConnection
            # (case cancelConnection d of Rejects e \<Rightarrow> [ConsoleLog ''Disconnect error:'']
               | Resolves u \<Rightarrow> [])
            @ emit s (OnConnectionStateChange False None)"
    and r: "disconnect (fst (disconnect s)) =
       (fst (disconnect s), emit s (OnConnectionStateChange False None))"
    by blast+
  show ?thesis
    unfolding Let_def d_def [symmetric] s_def [symmetric]
    using dv f t r by (simp add: prod_eq_iff c e)
qed

text \<open>
  C8. In a connected state with callbacks registered, the handler of an unsolicited
  disconnect clears the device, so that \<^verbatim>\<open>isConnected()\<close> answers false, and calls exactly one
  callback, \<^verbatim>\<open>onConnectionStateChange(false)\<close>: no \<open>onError\<close>.
\<close>

theorem unsolicited_disconnect:
  "device s = Some d \<Longrightarrow> callbacks s \<Longrightarrow>
     fst (onDisconnected s) = s\<lparr>device := None\<rparr>
   \<and> \<not> service_isConnected (fst (onDisconnected s))
   \<and> snd (onDisconnected s) =
       [ConsoleLog ''Device disconnected:'', OnConnectionStateChange False None]
   \<and> filter isCallback (snd (onDisconnected s)) = [OnConnectionStateChange False None]"
  by (simp add: onDisconnected_def service_isConnected_def emit_def)

theorem unsolicited_disconnect_witness:
  "(let d = \<lparr> name = Some ''Sensor'', discoverAllServicesAndCharacteristics = Resolves (),
              monitorThrows = False, services = Resolves [],
              cancelConnection = Resolves () \<rparr>;
        s = fst (connectToDevice ''id-1'' (Resolves d)
              \<lparr> manager = True, device = None, isScanning = False, callbacks = True,
                isInitialized = True, initError = None, nativeScan = False, timeouts = [],
                clock = 0, monitoring = False, pollInterval = False \<rparr>)
    in device s = Some d \<and> callbacks s
     \<and> \<not> service_isConnected (fst (onDisconnected s))
     \<and> filter isCallback (snd (onDisconnected s)) = [OnConnectionStateChange False None])"
proof -
  define d where "d = \<lparr> name = Some ''Sensor'',
    discoverAllServicesAndCharacteristics = Resolves (), monitorThrows = False,
    services = Resolves [], cancelConnection = Resolves () \<rparr>"
  define s where "s = fst (connectToDevice ''id-1'' (Resolves d)
              \<lparr> manager = True, device = None, isScanning = False, callbacks = True,
                isInitialized = True, initError = None, nativeScan = False, timeouts = [],
                clock = 0, monitoring = False, pollInterval = False \<rparr>)"
  have a: "device s = Some d" and b: "callbacks s"
    by (simp_all add: s_def d_def connectToDevice_def stopScan_def startDataNotifications_def
        Let_def)
  show ?thesis
    unfolding Let_def d_def [symmetric] s_def [symmetric]
    using unsolicited_disconnect [OF a b] a b by blast
qed



section \<open>Polling\<close>

text \<open>
  What a polling pass does, by what the peripheral offers: a pass over characteristics
  none of which yields data finds nothing and only logs the reads that threw; a
  characteristic that yields data ends the pass with its reading.
\<close>

lemma filter_emit_reading:
  "filter notReadLog (emit s (OnDataReceived r)) = emit s (OnDataReceived r)"
  by (simp add: emit_def notReadLog_def)

lemma filter_emit_error: "filter notReadLog (emit s (OnError m)) = emit s (OnError m)"
  by (simp add: emit_def notReadLog_def)

lemma notReadLog_readLog: "\<not> notReadLog (ConsoleLog ''Characteristic read error:'')"
  by (simp add: notReadLog_def)

lemma readCharacteristics_none:
  "\<not> list_ex yieldsData cs \<Longrightarrow>
     snd (readCharacteristics now s cs) = False
   \<and> filter notReadLog (fst (readCharacteristics now s cs)) = []"
proof (induction cs)
  case Nil
  show ?case by simp
next
  case (Cons c cs)
  then have rest: "snd (readCharacteristics now s cs) = False
      \<and> filter notReadLog (fst (readCharacteristics now s cs)) = []"
    and c: "\<not> yieldsData c"
    by simp_all
  from c rest show ?case
    by (auto simp: yieldsData_def notReadLog_readLog Let_def split_beta
        split: outcome.splits option.splits)
qed

lemma readCharacteristics_some:
  "list_ex yieldsData cs \<Longrightarrow>
     snd (readCharacteristics now s cs) = True
   \<and> (\<exists>b. 4 \<le> length (decodeBase64 b)
        \<and> filter notReadLog (fst (readCharacteristics now s cs)) =
            emit s (OnDataReceived (readingOfBytes now (decodeBase64 b))))"
proof (induction cs)
  case Nil
  then show ?case by simp
next
  case (Cons c cs)
  show ?case
  proof (cases "yieldsData c")
    case True
    then obtain b where b: "isReadable c" "read c = Resolves (Some b)" "b \<noteq> []"
      "4 \<le> length (decodeBase64 b)"
      by (auto simp: yieldsData_def split: outcome.splits option.splits)
    then have "readCharacteristics now s (c # cs) =
        (emit s (OnDataReceived (readingOfBytes now (decodeBase64 b))), True)"
      by (simp add: Let_def)
    with b(4) show ?thesis by (auto simp: filter_emit_reading)
  next
    case False
    with Cons.prems have "list_ex yieldsData cs" by simp
    from Cons.IH [OF this] obtain b where
      f: "snd (readCharacteristics now s cs) = True" and
      l: "4 \<le> length (decodeBase64 b)" and
      t: "filter notReadLog (fst (readCharacteristics now s cs)) =
            emit s (OnDataReceived (readingOfBytes now (decodeBase64 b)))"
      by blast
    from False f t have "snd (readCharacteristics now s (c # cs)) = True
      \<and> filter notReadLog (fst (readCharacteristics now s (c # cs))) =
            emit s (OnDataReceived (readingOfBytes now (decodeBase64 b)))"
      by (auto simp: yieldsData_def notReadLog_readLog Let_def split_beta
          split: outcome.splits option.splits)
    with l show ?thesis by blast
  qed
qed

lemma readServices_skip:
  "list_all serviceWithoutData pre \<Longrightarrow>
     snd (readServices now s (pre @ rest)) = snd (readServices now s rest)
   \<and> filter notReadLog (fst (readServices now s (pre @ rest))) =
       filter notReadLog (fst (readServices now s rest))"
proof (induction pre)
  case Nil
  show ?case by simp
next
  case (Cons svc pre)
  then obtain cs where cs: "characteristics svc = Resolves cs" "\<not> list_ex yieldsData cs"
    by (auto simp: serviceWithoutData_def split: outcome.splits)
  from Cons have rest: "snd (readServices now s (pre @ rest)) = snd (readServices now s rest)
   \<and> filter notReadLog (fst (readServices now s (pre @ rest))) =
       filter notReadLog (fst (readServices now s rest))"
    by simp
  from readCharacteristics_none [OF cs(2), of now s] cs(1) rest show ?case
    by (simp add: split_beta Let_def)
qed

lemma readServices_none:
  "list_all serviceWithoutData svcs \<Longrightarrow>
     snd (readServices now s svcs) = Resolves False
   \<and> filter notReadLog (fst (readServices now s svcs)) = []"
  using readServices_skip [of svcs now s "[]"] by simp

lemma readServices_throws:
  "list_all serviceWithoutData pre \<Longrightarrow> serviceThrows svc \<Longrightarrow>
     (\<exists>e. snd (readServices now s (pre @ svc # post)) = Rejects e)
   \<and> filter notReadLog (fst (readServices now s (pre @ svc # post))) = []"
  using readServices_skip [of pre now s "svc # post"]
  by (auto simp: serviceThrows_def split: outcome.splits)

lemma readServices_data:
  assumes "list_all serviceWithoutData pre" and "serviceWithData svc"
  shows "snd (readServices now s (pre @ svc # post)) = Resolves True
   \<and> (\<exists>b. 4 \<le> length (decodeBase64 b)
        \<and> filter notReadLog (fst (readServices now s (pre @ svc # post))) =
            emit s (OnDataReceived (readingOfBytes now (decodeBase64 b))))"
proof -
  from assms(2) obtain cs where cs: "characteristics svc = Resolves cs" "list_ex yieldsData cs"
    by (auto simp: serviceWithData_def split: outcome.splits)
  from readCharacteristics_some [OF cs(2), of now s] obtain b where
      f: "snd (readCharacteristics now s cs) = True" and
      l: "4 \<le> length (decodeBase64 b)" and
      t: "filter notReadLog (fst (readCharacteristics now s cs)) =
            emit s (OnDataReceived (readingOfBytes now (decodeBase64 b)))"
    by blast
  from cs(1) f t have "snd (readServices now s (svc # post)) = Resolves True
     \<and> filter notReadLog (fst (readServices now s (svc # post))) =
            emit s (OnDataReceived (readingOfBytes now (decodeBase64 b)))"
    by (simp add: split_beta)
  with readServices_skip [OF assms(1), of now s "svc # post"] l show ?thesis
    by auto
qed


lemma notReadLog_others:
  "notReadLog (ConsoleLog ''Polling error:'')" "notReadLog ClearInterval"
  by (simp_all add: notReadLog_def)

text \<open>
  C3, as the claim states it: a polling cycle that finds no readable attribute, and one
  whose only payload decodes to fewer than 4 bytes, are not retried. Each reports the
  error, clears the interval, and the next second nothing runs.
\<close>

theorem poll_no_readable_counterexample:
  "(let c = \<lparr> isReadable = False, read = Resolves (Some ''+nhtSA=='') \<rparr>;
        short = \<lparr> isReadable = True, read = Resolves (Some ''AAA='') \<rparr>;
        d = \<lparr> name = Some ''Sensor'', discoverAllServicesAndCharacteristics = Resolves (),
              monitorThrows = True, services = Resolves [\<lparr> characteristics = Resolves [c] \<rparr>],
              cancelConnection = Resolves () \<rparr>;
        d' = d\<lparr>services := Resolves [\<lparr> characteristics = Resolves [short] \<rparr>]\<rparr>;
        s = \<lparr> manager = True, device = Some d, isScanning = False, callbacks = True,
              isInitialized = True, initError = None, nativeScan = False, timeouts = [],
              clock = 0, monitoring = False, pollInterval = True \<rparr>;
        s' = s\<lparr>device := Some d'\<rparr>;
        unable = ''Unable to read sensor data from device. Please check your sensor configuration.''
    in pollTick 1000 s = (s\<lparr>pollInterval := False\<rparr>, [OnError unable, ClearInterval])
     \<and> pollTick 2000 (fst (pollTick 1000 s)) = (s\<lparr>pollInterval := False\<rparr>, [])
     \<and> pollTick 1000 s' = (s'\<lparr>pollInterval := False\<rparr>, [OnError unable, ClearInterval])
     \<and> pollTick 2000 (fst (pollTick 1000 s')) = (s'\<lparr>pollInterval := False\<rparr>, []))"
proof -
  have "decodeBase64 ''AAA='' = [0, 0]" by code_simp
  then show ?thesis
    by (simp add: Let_def pollTick_def pollCallback_def emit_def)
qed

text \<open>
  C3, amended. While the interval is scheduled and a device is set, every second runs one
  enumeration pass. Within the pass a characteristic that is not readable, whose read
  throws, or whose value is empty or decodes to fewer than 4 bytes is passed over and the
  pass goes on to the next one. A pass that ends with no successful read, which includes a
  pass that finds no readable attribute, reports the error "Unable to read sensor data
  ..." and clears the interval; a pass in which listing the services or the
  characteristics of a service throws before any successful read reports "Error reading
  from device" and clears the interval too. A pass with a successful read delivers that
  reading and leaves the interval scheduled. Once the interval is cleared no further pass
  runs.
\<close>

theorem polling_pass_outcomes:
  assumes "pollInterval s" and "device s = Some d"
  shows
   "(services d = Rejects e \<longrightarrow>
       pollTick now s = (s\<lparr>pollInterval := False\<rparr>,
         ConsoleLog ''Polling error:'' # emit s (OnError ''Error reading from device'')
           @ [ClearInterval]))
  \<and> (services d = Resolves svcs \<and> list_all serviceWithoutData svcs \<longrightarrow>
       fst (pollTick now s) = s\<lparr>pollInterval := False\<rparr>
     \<and> filter notReadLog (snd (pollTick now s)) =
         emit s (OnError
           ''Unable to read sensor data from device. Please check your sensor configuration.'')
         @ [ClearInterval])
  \<and> (services d = Resolves (pre @ svc # post) \<and> list_all serviceWithoutData pre
        \<and> serviceThrows svc \<longrightarrow>
       fst (pollTick now s) = s\<lparr>pollInterval := False\<rparr>
     \<and> filter notReadLog (snd (pollTick now s)) =
         ConsoleLog ''Polling error:'' # emit s (OnError ''Error reading from device'')
           @ [ClearInterval])
  \<and> (services d = Resolves (pre @ svc # post) \<and> list_all serviceWithoutData pre
        \<and> serviceWithData svc \<longrightarrow>
       fst (pollTick now s) = s
     \<and> (\<exists>b. 4 \<le> length (decodeBase64 b)
          \<and> filter notReadLog (snd (pollTick now s)) =
              emit s (OnDataReceived (readingOfBytes now (decodeBase64 b)))))
  \<and> pollTick later (s\<lparr>pollInterval := False\<rparr>) = (s\<lparr>pollInterval := False\<rparr>, [])"
proof -
  have A: "pollTick now s = (s\<lparr>pollInterval := False\<rparr>,
         ConsoleLog ''Polling error:'' # emit s (OnError ''Error reading from device'')
           @ [ClearInterval])" if "services d = Rejects e"
    using assms that by (simp add: pollTick_def pollCallback_def)
  have B: "fst (pollTick now s) = s\<lparr>pollInterval := False\<rparr>
     \<and> filter notReadLog (snd (pollTick now s)) =
         emit s (OnError
           ''Unable to read sensor data from device. Please check your sensor configuration.'')
         @ [ClearInterval]"
    if "services d = Resolves svcs \<and> list_all serviceWithoutData svcs"
  proof -
    from that readServices_none [of svcs now s]
    obtain tr where "readServices now s svcs = (tr, Resolves False)" "filter notReadLog tr = []"
      by (cases "readServices now s svcs") auto
    with assms that show ?thesis
      by (simp add: pollTick_def pollCallback_def filter_emit_error notReadLog_others)
  qed
  have C: "fst (pollTick now s) = s\<lparr>pollInterval := False\<rparr>
     \<and> filter notReadLog (snd (pollTick now s)) =
         ConsoleLog ''Polling error:'' # emit s (OnError ''Error reading from device'')
           @ [ClearInterval]"
    if "services d = Resolves (pre @ svc # post) \<and> list_all serviceWithoutData pre
        \<and> serviceThrows svc"
  proof -
    from that readServices_throws [of pre svc now s post]
    obtain tr e' where "readServices now s (pre @ svc # post) = (tr, Rejects e')"
      "filter notReadLog tr = []"
      by (cases "readServices now s (pre @ svc # post)") auto
    with assms that show ?thesis
      by (simp add: pollTick_def pollCallback_def filter_emit_error notReadLog_others)
  qed
  have D: "fst (pollTick now s) = s
     \<and> (\<exists>b. 4 \<le> length (decodeBase64 b)
          \<and> filter notReadLog (snd (pollTick now s)) =
              emit s (OnDataReceived (readingOfBytes now (decodeBase64 b))))"
    if "services d = Resolves (pre @ svc # post) \<and> list_all serviceWithoutData pre
        \<and> serviceWithData svc"
  proof -
    from that readServices_data [of pre svc now s post]
    obtain tr b where "readServices now s (pre @ svc # post) = (tr, Resolves True)"
      "4 \<le> length (decodeBase64 b)"
      "filter notReadLog tr = emit s (OnDataReceived (readingOfBytes now (decodeBase64 b)))"
      by (cases "readServices now s (pre @ svc # post)") auto
    with assms that show ?thesis
      by (auto simp add: pollTick_def pollCallback_def)
  qed
  have E: "pollTick later (s\<lparr>pollInterval := False\<rparr>) = (s\<lparr>pollInterval := False\<rparr>, [])"
    by (simp add: pollTick_def)
  from A B C D E show ?thesis by blast
qed


theorem polling_pass_outcomes_witness:
  "(let thrower = \<lparr> isReadable = True, read = Rejects ''gatt'' \<rparr>;
        short = \<lparr> isReadable = True, read = Resolves (Some ''AAA='') \<rparr>;
        good = \<lparr> isReadable = True, read = Resolves (Some ''+nhtSA=='') \<rparr>;
        svc1 = \<lparr> characteristics = Resolves [thrower, short] \<rparr>;
        svc2 = \<lparr> characteristics = Resolves [good] \<rparr>;
        svc3 = \<lparr> characteristics = Rejects ''gatt'' \<rparr>;
        d = \<lparr> name = Some ''Sensor'', discoverAllServicesAndCharacteristics = Resolves (),
              monitorThrows = True, services = Resolves ([svc1] @ svc2 # []),
              cancelConnection = Resolves () \<rparr>;
        s = \<lparr> manager = True, device = Some d, isScanning = False, callbacks = True,
              isInitialized = True, initError = None, nativeScan = False, timeouts = [],
              clock = 0, monitoring = False, pollInterval = True \<rparr>;
        d0 = d\<lparr>services := Resolves [svc1]\<rparr>;
        s0 = s\<lparr>device := Some d0\<rparr>;
        d3 = d\<lparr>services := Resolves ([svc1] @ svc3 # [svc2])\<rparr>;
        s3 = s\<lparr>device := Some d3\<rparr>
    in pollInterval s \<and> device s = Some d
     \<and> services d = Resolves ([svc1] @ svc2 # []) \<and> list_all serviceWithoutData [svc1]
     \<and> serviceWithData svc2
     \<and> fst (pollTick 1000 s) = s
     \<and> pollInterval s0 \<and> device s0 = Some d0
     \<and> services d0 = Resolves [svc1]
     \<and> fst (pollTick 1000 s0) = s0\<lparr>pollInterval := False\<rparr>
     \<and> pollTick 2000 (s0\<lparr>pollInterval := False\<rparr>) = (s0\<lparr>pollInterval := False\<rparr>, [])
     \<and> pollInterval s3 \<and> device s3 = Some d3
     \<and> services d3 = Resolves ([svc1] @ svc3 # [svc2]) \<and> serviceThrows svc3
     \<and> fst (pollTick 1000 s3) = s3\<lparr>pollInterval := False\<rparr>)"
proof -
  define svc1 where "svc1 = \<lparr> characteristics = Resolves [
     \<lparr> isReadable = True, read = Rejects ''gatt'' \<rparr>,
     \<lparr> isReadable = True, read = Resolves (Some ''AAA='') \<rparr>] \<rparr>"
  define svc2 where "svc2 = \<lparr> characteristics = Resolves [
     \<lparr> isReadable = True, read = Resolves (Some ''+nhtSA=='') \<rparr>] \<rparr>"
  define svc3 where "svc3 = \<lparr> characteristics = (Rejects ''gatt'' :: Characteristic list outcome) \<rparr>"
  define d where "d = \<lparr> name = Some ''Sensor'',
     discoverAllServicesAndCharacteristics = Resolves (), monitorThrows = True,
     services = Resolves ([svc1] @ svc2 # []), cancelConnection = Resolves () \<rparr>"
  define s where "s = \<lparr> manager = True, device = Some d, isScanning = False,
     callbacks = True, isInitialized = True, initError = None, nativeScan = False,
     timeouts = [], clock = 0, monitoring = False, pollInterval = True \<rparr>"
  define d0 where "d0 = d\<lparr>services := Resolves [svc1]\<rparr>"
  define s0 where "s0 = s\<lparr>device := Some d0\<rparr>"
  define d3 where "d3 = d\<lparr>services := Resolves ([svc1] @ svc3 # [svc2])\<rparr>"
  define s3 where "s3 = s\<lparr>device := Some d3\<rparr>"
  have dec: "decodeBase64 ''AAA='' = [0, 0]" "decodeBase64 ''+nhtSA=='' = [250, 120, 109, 72]"
    by code_simp+
  have p: "pollInterval s" "device s = Some d" "pollInterval s0" "device s0 = Some d0"
    "pollInterval s3" "device s3 = Some d3"
    by (simp_all add: s_def s0_def s3_def)
  have sv: "services d = Resolves ([svc1] @ svc2 # [])" "services d0 = Resolves [svc1]"
    "services d3 = Resolves ([svc1] @ svc3 # [svc2])"
    by (simp_all add: d_def d0_def d3_def)
  have w1: "list_all serviceWithoutData [svc1]"
    by (simp add: svc1_def serviceWithoutData_def yieldsData_def dec)
  have w2: "serviceWithData svc2"
    by (simp add: svc2_def serviceWithData_def yieldsData_def dec)
  have w3: "serviceThrows svc3"
    by (simp add: svc3_def serviceThrows_def)
  have r: "fst (pollTick 1000 s) = s"
    using polling_pass_outcomes [OF p(1) p(2), where now = 1000 and pre = "[svc1]" and svc = svc2
        and post = "[]"]
      sv(1) w1 w2 by blast
  have r0: "fst (pollTick 1000 s0) = s0\<lparr>pollInterval := False\<rparr>
      \<and> pollTick 2000 (s0\<lparr>pollInterval := False\<rparr>) = (s0\<lparr>pollInterval := False\<rparr>, [])"
    using polling_pass_outcomes [OF p(3) p(4), where now = 1000 and svcs = "[svc1]"
        and later = 2000] sv(2) w1 by blast
  have r3: "fst (pollTick 1000 s3) = s3\<lparr>pollInterval := False\<rparr>"
    using polling_pass_outcomes [OF p(5) p(6), where now = 1000 and pre = "[svc1]" and svc = svc3
        and post = "[svc2]"]
      sv(3) w1 w3 by blast
  show ?thesis
    unfolding Let_def
    using p sv w1 w2 w3 r r0 r3
    unfolding svc1_def svc2_def svc3_def d_def s_def d0_def s0_def d3_def s3_def
    by blast
qed


section \<open>Scanning\<close>

text \<open>
  Time is the logical clock of the model: a timeout set with delay \<open>T\<close> at time \<open>c\<close> runs its
  callback when the clock is advanced to \<open>c + T\<close> or beyond.
\<close>

lemma stopScan_fields:
  "manager (fst (stopScan s)) = manager s" "timeouts (fst (stopScan s)) = timeouts s"
  "clock (fst (stopScan s)) = clock s" "callbacks (fst (stopScan s)) = callbacks s"
  by (simp_all add: stopScan_def)

lemma stopScan_inv: "scanInv s \<Longrightarrow> scanInv (fst (stopScan s))"
  by (simp add: scanInv_def stopScan_def)

lemma stopScan_off: "manager s \<Longrightarrow> \<not> isScanning (fst (stopScan s))"
  by (simp add: stopScan_def)

lemma stopScan_stays_off: "\<not> isScanning s \<Longrightarrow> \<not> isScanning (fst (stopScan s))"
  by (simp add: stopScan_def)

lemma scanListener_fields:
  "manager (fst (scanListener r s)) = manager s" "timeouts (fst (scanListener r s)) = timeouts s"
  by (auto simp: scanListener_def stopScan_def split_beta
      split: scanResult.splits option.splits)

lemma scanListener_inv: "scanInv s \<Longrightarrow> scanInv (fst (scanListener r s))"
  by (auto simp: scanListener_def scanInv_def stopScan_def split_beta
      split: scanResult.splits option.splits)

lemma scanStep_inv:
  "scanInv s \<Longrightarrow> scanInv (fst (scanStep e s)) \<and> timeouts (fst (scanStep e s)) = timeouts s"
  by (cases e)
     (simp_all add: deliverScanResult_def scanListener_inv scanListener_fields stopScan_inv
        stopScan_fields)

lemma runScanEvents_inv:
  "scanInv s \<Longrightarrow>
   scanInv (fst (runScanEvents es s)) \<and> timeouts (fst (runScanEvents es s)) = timeouts s"
proof (induction es arbitrary: s)
  case Nil
  then show ?case by simp
next
  case (Cons e es)
  from scanStep_inv [OF Cons.prems, of e]
  have i: "scanInv (fst (scanStep e s))" and t: "timeouts (fst (scanStep e s)) = timeouts s"
    by simp_all
  from Cons.IH [OF i] t show ?case by (simp add: split_beta)
qed

lemma fireTimeouts_inv: "scanInv s \<Longrightarrow> scanInv (fst (fireTimeouts t dues s))"
proof (induction dues arbitrary: s)
  case Nil
  then show ?case by (simp add: scanInv_def)
next
  case (Cons due dues)
  show ?case
  proof (cases "due \<le> t")
    case True
    with Cons.IH [OF stopScan_inv [OF Cons.prems]] show ?thesis by (simp add: split_beta)
  next
    case False
    with Cons.IH [OF Cons.prems] show ?thesis by (simp add: split_beta scanInv_def)
  qed
qed

lemma fireTimeouts_stays_off:
  "\<not> isScanning s \<Longrightarrow> \<not> isScanning (fst (fireTimeouts t dues s))"
proof (induction dues arbitrary: s)
  case Nil
  then show ?case by simp
next
  case (Cons due dues)
  show ?case
  proof (cases "due \<le> t")
    case True
    with Cons.IH [OF stopScan_stays_off [OF Cons.prems]] show ?thesis by (simp add: split_beta)
  next
    case False
    with Cons.IH [OF Cons.prems] show ?thesis by (simp add: split_beta)
  qed
qed

lemma fireTimeouts_due:
  "manager s \<Longrightarrow> due \<in> set dues \<Longrightarrow> due \<le> t \<Longrightarrow> \<not> isScanning (fst (fireTimeouts t dues s))"
proof (induction dues arbitrary: s)
  case Nil
  then show ?case by simp
next
  case (Cons x dues)
  show ?case
  proof (cases "x \<le> t")
    case True
    have "\<not> isScanning (fst (stopScan s))" using Cons.prems(1) by (rule stopScan_off)
    then have "\<not> isScanning (fst (fireTimeouts t dues (fst (stopScan s))))"
      by (rule fireTimeouts_stays_off)
    with True show ?thesis by (simp add: split_beta)
  next
    case False
    with Cons.prems have "due \<in> set dues" by auto
    from Cons.IH [OF Cons.prems(1) this Cons.prems(3)] False show ?thesis
      by (simp add: split_beta)
  qed
qed

lemma advanceTo_off:
  assumes "scanInv s" and "due \<in> set (timeouts s)" and "due \<le> t"
  shows "\<not> isScanning (fst (advanceTo t s)) \<and> \<not> nativeScan (fst (advanceTo t s))"
proof -
  from assms(1) have m: "manager s" by (simp add: scanInv_def)
  have off: "\<not> isScanning (fst (fireTimeouts t (timeouts s) s))"
    using m assms(2,3) by (rule fireTimeouts_due)
  have "scanInv (fst (fireTimeouts t (timeouts s) s))"
    using assms(1) by (rule fireTimeouts_inv)
  with off show ?thesis by (simp add: advanceTo_def split_beta scanInv_def)
qed

text \<open>
  C9. A scan started with timeout \<open>T\<close> on a service that has a manager and is not scanning
  sets the scanning flag and a timeout of \<open>T\<close>. Whatever the library delivers and whether
  or not \<open>stopScan\<close> is called in between, with no device found at all as well, once the
  clock reaches the start time plus \<open>T\<close> the scanning flag is cleared and the library's
  scan is stopped, so that no further result reaches the listener and no device-found
  event is sent. The flag is also cleared by an explicit \<open>stopScan\<close>, by a scan error
  delivered to the listener (which reports it through \<open>onError\<close>), and when starting the
  scan throws.
\<close>

theorem scan_stops_by_timeout:
  assumes "manager s" and "\<not> isScanning s" and "\<not> nativeScan s" and "clock s + timeoutMs \<le> t"
  shows
   "(let s1 = fst (startScan timeoutMs Ready False s);
         s2 = fst (runScanEvents events s1);
         s3 = fst (advanceTo t s2)
     in isScanning s1 \<and> nativeScan s1
      \<and> \<not> isScanning s3 \<and> \<not> nativeScan s3
      \<and> deliverScanResult r s3 = (s3, [])
      \<and> \<not> isScanning (fst (stopScan s1)) \<and> \<not> nativeScan (fst (stopScan s1))
      \<and> \<not> isScanning (fst (scanListener (ScanError msg) s1))
      \<and> \<not> nativeScan (fst (scanListener (ScanError msg) s1))
      \<and> filter isCallback (snd (scanListener (ScanError msg) s1)) =
          emit s (OnError (''Scan error: '' @ msg)))
    \<and> \<not> isScanning (fst (startScan timeoutMs Ready True s))
    \<and> \<not> nativeScan (fst (startScan timeoutMs Ready True s))"
proof -
  define s1 where "s1 = fst (startScan timeoutMs Ready False s)"
  define s2 where "s2 = fst (runScanEvents events s1)"
  define s3 where "s3 = fst (advanceTo t s2)"
  have s1: "s1 = s\<lparr>isScanning := True, nativeScan := True,
      timeouts := timeouts s @ [clock s + timeoutMs]\<rparr>"
    using assms by (simp add: s1_def startScan_def)
  have on: "isScanning s1 \<and> nativeScan s1" by (simp add: s1)
  have inv1: "scanInv s1" using assms(1) by (simp add: s1 scanInv_def)
  have due1: "clock s + timeoutMs \<in> set (timeouts s1)" by (simp add: s1)
  from runScanEvents_inv [OF inv1, of events]
  have inv2: "scanInv s2" and due2: "clock s + timeoutMs \<in> set (timeouts s2)"
    using due1 by (simp_all add: s2_def)
  have off3: "\<not> isScanning s3 \<and> \<not> nativeScan s3"
    unfolding s3_def using inv2 due2 assms(4) by (rule advanceTo_off)
  then have quiet: "deliverScanResult r s3 = (s3, [])" by (simp add: deliverScanResult_def)
  have stop: "\<not> isScanning (fst (stopScan s1)) \<and> \<not> nativeScan (fst (stopScan s1))"
    using assms(1) by (simp add: s1 stopScan_def)
  have err: "\<not> isScanning (fst (scanListener (ScanError msg) s1))
      \<and> \<not> nativeScan (fst (scanListener (ScanError msg) s1))
      \<and> filter isCallback (snd (scanListener (ScanError msg) s1)) =
          emit s (OnError (''Scan error: '' @ msg))"
    using assms(1) by (simp add: s1 scanListener_def stopScan_def emit_def)
  have thr: "\<not> isScanning (fst (startScan timeoutMs Ready True s))
    \<and> \<not> nativeScan (fst (startScan timeoutMs Ready True s))"
    using assms by (simp add: startScan_def)
  show ?thesis
    unfolding Let_def s1_def [symmetric] s2_def [symmetric] s3_def [symmetric]
    using on off3 quiet stop err thr by blast
qed


theorem scan_stops_by_timeout_witness:
  "(let s = \<lparr> manager = True, device = None, isScanning = False, callbacks = True,
              isInitialized = True, initError = None, nativeScan = False, timeouts = [],
              clock = 500, monitoring = False, pollInterval = False \<rparr>;
        found = \<lparr> scanned_id = ''AA:BB'', scanned_name = Some ''Sensor'',
                  scanned_rssi = Some (- 60), scanned_isConnectable = None \<rparr>;
        s1 = fst (startScan 10000 Ready False s);
        quiet = fst (advanceTo 10500 (fst (runScanEvents [] s1)));
        busy = fst (advanceTo 10500 (fst (runScanEvents [Delivered (ScanFound found)] s1)))
    in manager s \<and> \<not> isScanning s \<and> \<not> nativeScan s \<and> clock s + 10000 \<le> 10500
     \<and> isScanning s1
     \<and> \<not> isScanning quiet \<and> deliverScanResult (ScanFound found) quiet = (quiet, [])
     \<and> \<not> isScanning busy \<and> deliverScanResult (ScanFound found) busy = (busy, []))"
proof -
  define s where "s = \<lparr> manager = True, device = None, isScanning = False, callbacks = True,
              isInitialized = True, initError = None, nativeScan = False, timeouts = [],
              clock = 500, monitoring = False, pollInterval = False \<rparr>"
  define found where "found = \<lparr> scanned_id = ''AA:BB'', scanned_name = Some ''Sensor'',
                  scanned_rssi = Some (- 60), scanned_isConnectable = None \<rparr>"
  have h: "manager s" "\<not> isScanning s" "\<not> nativeScan s" "clock s + 10000 \<le> 10500"
    by (simp_all add: s_def)
  note q = scan_stops_by_timeout [OF h, where events = "[]" and r = "ScanFound found",
      unfolded Let_def]
  note b = scan_stops_by_timeout [OF h, where events = "[Delivered (ScanFound found)]"
      and r = "ScanFound found", unfolded Let_def]
  show ?thesis
    unfolding Let_def s_def [symmetric] found_def [symmetric]
    using h q b by blast
qed


end
